theory Spec2Isabelle
  imports Main
begin

section \<open>The macOS keychain backend of keyring (keychain.go)\<close>

text \<open>
  The backend orchestrates three external collaborators: the keychain library
  (package \<open>gokeychain\<close>), the biometric authenticator (package \<open>touchid\<close>) and the
  terminal. None of them is code of the repository, so each call is modelled as a
  question put to an oracle and recorded, with its answer, in a trace of events. An
  oracle sees the whole trace so far: its answer may depend on everything that has
  happened before, which covers every deterministic behaviour of the collaborators and,
  by quantifying over the oracle, every single run of a non-deterministic one.

  Byte slices and Go strings are both sequences of bytes and are both modelled as
  \<open>string\<close>; the conversions \<open>string(b)\<close> of the source are the identity. Console output
  (\<open>fmt.Println\<close>, \<open>log.Printf\<close>, \<open>debugf\<close>) is not modelled.
\<close>

subsection \<open>Errors\<close>

text \<open>
  \<open>ext_error\<close>: the error values that the collaborators return. The three sentinels are
  the ones the source compares against; every other value is \<open>ErrorOther\<close> with a message.
\<close>

datatype ext_error =
    ErrorItemNotFound
  | ErrorDuplicateItem
  | ErrorNoSuchKeychain
  | ErrorOther string

text \<open>
  \<open>error\<close>: the error values that the backend returns. \<open>ErrKeyNotFound\<close> is the sentinel
  of package keyring, \<open>Ext e\<close> is a collaborator's error handed on unchanged,
  \<open>ErrorsNew m\<close> is \<open>errors.New(m)\<close> and \<open>FmtErrorf p e\<close> is \<open>fmt.Errorf(p + "%v", e)\<close>.
\<close>

datatype error =
    ErrKeyNotFound
  | Ext ext_error
  | ErrorsNew string
  | FmtErrorf string ext_error

subsection \<open>Values of the keychain library\<close>

text \<open>\<open>gokeychain.Keychain\<close> is a struct holding a path; \<open>Keychain{}\<close> is \<open>NewWithPath ''''\<close>.\<close>

datatype Keychain = NewWithPath string

datatype SecClass = SecClassGenericPassword
datatype MatchLimit = MatchLimitOne | MatchLimitAll
datatype Synchronizable = SynchronizableYes | SynchronizableNo
datatype Accessible = AccessibleWhenUnlocked

text \<open>
  \<open>gokeychain.Access\<close>: a nil slice of trusted applications is \<open>None\<close>, the empty slice
  \<open>[]string{}\<close> is \<open>Some []\<close>.
\<close>

record Access =
  accLabel :: string
  TrustedApplications :: "string list option"

text \<open>
  \<open>gokeychain.Item\<close> is a bag of attributes filled by setters. Each attribute is a field
  that is \<open>None\<close> until its setter is called with a value; \<open>SetAccess(nil)\<close> clears the
  access attribute.
\<close>

record kcItem =
  attrSecClass :: "SecClass option"
  attrService :: "string option"
  attrAccount :: "string option"
  attrLabel :: "string option"
  attrDescription :: "string option"
  attrData :: "string option"
  attrMatchLimit :: "MatchLimit option"
  attrReturnAttributes :: "bool option"
  attrReturnData :: "bool option"
  attrReturnRef :: "bool option"
  attrMatchSearchList :: "Keychain list option"
  attrUseKeychain :: "Keychain option"
  attrSynchronizable :: "Synchronizable option"
  attrAccessible :: "Accessible option"
  attrAccess :: "Access option"

definition NewItem :: kcItem where
  "NewItem = \<lparr>attrSecClass = None, attrService = None, attrAccount = None,
     attrLabel = None, attrDescription = None, attrData = None, attrMatchLimit = None,
     attrReturnAttributes = None, attrReturnData = None, attrReturnRef = None,
     attrMatchSearchList = None, attrUseKeychain = None, attrSynchronizable = None,
     attrAccessible = None, attrAccess = None\<rparr>"

definition SetSecClass :: "SecClass \<Rightarrow> kcItem \<Rightarrow> kcItem" where
  "SetSecClass v it = it\<lparr>attrSecClass := Some v\<rparr>"

definition SetService :: "string \<Rightarrow> kcItem \<Rightarrow> kcItem" where
  "SetService v it = it\<lparr>attrService := Some v\<rparr>"

definition SetAccount :: "string \<Rightarrow> kcItem \<Rightarrow> kcItem" where
  "SetAccount v it = it\<lparr>attrAccount := Some v\<rparr>"

definition SetLabel :: "string \<Rightarrow> kcItem \<Rightarrow> kcItem" where
  "SetLabel v it = it\<lparr>attrLabel := Some v\<rparr>"

definition SetDescription :: "string \<Rightarrow> kcItem \<Rightarrow> kcItem" where
  "SetDescription v it = it\<lparr>attrDescription := Some v\<rparr>"

definition SetData :: "string \<Rightarrow> kcItem \<Rightarrow> kcItem" where
  "SetData v it = it\<lparr>attrData := Some v\<rparr>"

definition SetMatchLimit :: "MatchLimit \<Rightarrow> kcItem \<Rightarrow> kcItem" where
  "SetMatchLimit v it = it\<lparr>attrMatchLimit := Some v\<rparr>"

definition SetReturnAttributes :: "bool \<Rightarrow> kcItem \<Rightarrow> kcItem" where
  "SetReturnAttributes v it = it\<lparr>attrReturnAttributes := Some v\<rparr>"

definition SetReturnData :: "bool \<Rightarrow> kcItem \<Rightarrow> kcItem" where
  "SetReturnData v it = it\<lparr>attrReturnData := Some v\<rparr>"

definition SetReturnRef :: "bool \<Rightarrow> kcItem \<Rightarrow> kcItem" where
  "SetReturnRef v it = it\<lparr>attrReturnRef := Some v\<rparr>"

definition SetMatchSearchList :: "Keychain list \<Rightarrow> kcItem \<Rightarrow> kcItem" where
  "SetMatchSearchList v it = it\<lparr>attrMatchSearchList := Some v\<rparr>"

definition UseKeychain :: "Keychain \<Rightarrow> kcItem \<Rightarrow> kcItem" where
  "UseKeychain v it = it\<lparr>attrUseKeychain := Some v\<rparr>"

definition SetSynchronizable :: "Synchronizable \<Rightarrow> kcItem \<Rightarrow> kcItem" where
  "SetSynchronizable v it = it\<lparr>attrSynchronizable := Some v\<rparr>"

definition SetAccessible :: "Accessible \<Rightarrow> kcItem \<Rightarrow> kcItem" where
  "SetAccessible v it = it\<lparr>attrAccessible := Some v\<rparr>"

definition SetAccess :: "Access option \<Rightarrow> kcItem \<Rightarrow> kcItem" where
  "SetAccess v it = it\<lparr>attrAccess := v\<rparr>"

text \<open>\<open>gokeychain.QueryResult\<close>, with the fields the source reads; a time stamp is a number.\<close>

record QueryResult =
  qrAccount :: string
  qrData :: string
  qrLabel :: string
  qrDescription :: string
  qrModificationDate :: int

subsection \<open>The trace of calls\<close>

text \<open>One event for each call of a collaborator: the arguments, then what came back.\<close>

datatype event =
    EvStatus Keychain "ext_error option"
  | EvQueryItem kcItem "QueryResult list" "ext_error option"
  | EvAddItem kcItem "ext_error option"
  | EvUpdateItem kcItem kcItem "ext_error option"
  | EvDeleteItem kcItem "ext_error option"
  | EvLockAtPath string "ext_error option"
  | EvUnlockAtPath string string "ext_error option"
  | EvNewKeychain string string Keychain "ext_error option"
  | EvNewKeychainWithPrompt string Keychain "ext_error option"
  | EvAuthenticate string bool "ext_error option"
  | EvReadPassword string "ext_error option"
  | EvPasswordFunc string string "ext_error option"

type_synonym trace = "event list"

text \<open>
  The collaborators. \<open>Status\<close>, \<open>QueryItem\<close>, \<open>AddItem\<close>, \<open>UpdateItem\<close>, \<open>DeleteItem\<close>,
  \<open>LockAtPath\<close>, \<open>UnlockAtPath\<close>, \<open>NewKeychain\<close> and \<open>NewKeychainWithPrompt\<close> are the
  keychain library's, \<open>Authenticate\<close> is \<open>touchid.Authenticate\<close> and \<open>ReadPassword\<close> is
  \<open>terminal.ReadPassword\<close> on standard input. A Go result \<open>(v, err)\<close> is a pair whose
  second component is \<open>None\<close> for a nil error.
\<close>

record env =
  Status :: "trace \<Rightarrow> Keychain \<Rightarrow> ext_error option"
  QueryItem :: "trace \<Rightarrow> kcItem \<Rightarrow> QueryResult list \<times> ext_error option"
  AddItem :: "trace \<Rightarrow> kcItem \<Rightarrow> ext_error option"
  UpdateItem :: "trace \<Rightarrow> kcItem \<Rightarrow> kcItem \<Rightarrow> ext_error option"
  DeleteItem :: "trace \<Rightarrow> kcItem \<Rightarrow> ext_error option"
  LockAtPath :: "trace \<Rightarrow> string \<Rightarrow> ext_error option"
  UnlockAtPath :: "trace \<Rightarrow> string \<Rightarrow> string \<Rightarrow> ext_error option"
  NewKeychain :: "trace \<Rightarrow> string \<Rightarrow> string \<Rightarrow> Keychain \<times> ext_error option"
  NewKeychainWithPrompt :: "trace \<Rightarrow> string \<Rightarrow> Keychain \<times> ext_error option"
  Authenticate :: "trace \<Rightarrow> string \<Rightarrow> bool \<times> ext_error option"
  ReadPassword :: "trace \<Rightarrow> string \<times> ext_error option"

subsection \<open>Values of package keyring\<close>

text \<open>
  Modelled from the spec: the declarations of \<open>Item\<close>, \<open>Metadata\<close>, \<open>Config\<close>,
  \<open>PromptFunc\<close> and \<open>ErrKeyNotFound\<close> are in files of package keyring other than
  keychain.go. The fields are the ones keychain.go reads, under the names it uses;
  \<open>KeychainSynchronizable\<close> is the configuration's \<open>synchronizable\<close> flag of the
  specification's data model, which keychain.go never reads.

  \<open>PromptFunc\<close> is \<open>func(string) (string, error)\<close>, supplied by the caller in the
  configuration; like the collaborators it sees the trace.
\<close>

type_synonym PromptFunc = "trace \<Rightarrow> string \<Rightarrow> string \<times> ext_error option"

record Item =
  Key :: string
  Data :: string
  Label :: string
  Description :: string
  KeychainNotTrustApplication :: bool
  KeychainNotSynchronizable :: bool

record Metadata =
  mdItem :: "Item option"
  ModificationTime :: int

record Config =
  ServiceName :: string
  KeychainName :: string
  KeychainPasswordFunc :: "PromptFunc option"
  KeychainAccessibleWhenUnlocked :: bool
  KeychainTrustApplication :: bool
  KeychainSynchronizable :: bool

text \<open>The zero value \<open>Item{}\<close>, with the fields a composite literal leaves out.\<close>

definition Item_zero :: Item where
  "Item_zero = \<lparr>Key = '''', Data = '''', Label = '''', Description = '''',
     KeychainNotTrustApplication = False, KeychainNotSynchronizable = False\<rparr>"

subsection \<open>The backend\<close>

definition biometricsAccount :: string where "biometricsAccount = ''x''"
definition biometricsService :: string where "biometricsService = ''x''"

text \<open>\<open>fmt.Sprintf(biometricsLabel, p)\<close> with \<open>biometricsLabel = "Passphrase for %s"\<close>.\<close>

definition biometricsLabel :: "string \<Rightarrow> string" where
  "biometricsLabel p = ''Passphrase for '' @ p"

record keychain =
  path :: string
  service :: string
  passphrase :: string
  authenticated :: bool
  passwordFunc :: "PromptFunc option"
  isSynchronizable :: bool
  isAccessibleWhenUnlocked :: bool
  isTrusted :: bool

text \<open>
  The constructor registered by \<open>init\<close> under \<open>KeychainBackend\<close>. The composite literal sets
  three fields; the others start at their zero values.
\<close>

definition init_opener :: "Config \<Rightarrow> error + keychain" where
  "init_opener cfg =
     (let kc = \<lparr>path = '''', service = ServiceName cfg, passphrase = '''',
                authenticated = False, passwordFunc = KeychainPasswordFunc cfg,
                isSynchronizable = False,
                isAccessibleWhenUnlocked = KeychainAccessibleWhenUnlocked cfg,
                isTrusted = False\<rparr>;
          kc = (if KeychainName cfg \<noteq> '''' then kc\<lparr>path := KeychainName cfg @ ''.keychain''\<rparr>
                else kc);
          kc = (if KeychainTrustApplication cfg then kc\<lparr>isTrusted := True\<rparr> else kc)
      in Inr kc)"

definition Get :: "env \<Rightarrow> keychain \<Rightarrow> string \<Rightarrow> trace \<Rightarrow> (error + Item) \<times> trace" where
  "Get E k key tr =
     (let query = NewItem;
          query = SetSecClass SecClassGenericPassword query;
          query = SetService (service k) query;
          query = SetAccount key query;
          query = SetMatchLimit MatchLimitOne query;
          query = SetReturnAttributes True query;
          query = SetReturnData True query;
          query = (if path k \<noteq> '''' then SetMatchSearchList [NewWithPath (path k)] query
                   else query);
          (results, err) = QueryItem E tr query;
          tr = tr @ [EvQueryItem query results err]
      in if err = Some ErrorItemNotFound \<or> length results = 0 then (Inl ErrKeyNotFound, tr)
         else case err of
           Some e \<Rightarrow> (Inl (Ext e), tr)
         | None \<Rightarrow>
             (Inr (Item_zero\<lparr>Key := key, Data := qrData (results ! 0),
                     Label := qrLabel (results ! 0),
                     Description := qrDescription (results ! 0)\<rparr>), tr))"

text \<open>\<open>GetMetadata\<close> sets no search list: it queries the default keychains whatever the path.\<close>

definition GetMetadata :: "env \<Rightarrow> keychain \<Rightarrow> string \<Rightarrow> trace \<Rightarrow> (error + Metadata) \<times> trace" where
  "GetMetadata E k key tr =
     (let query = NewItem;
          query = SetSecClass SecClassGenericPassword query;
          query = SetService (service k) query;
          query = SetAccount key query;
          query = SetMatchLimit MatchLimitOne query;
          query = SetReturnAttributes True query;
          query = SetReturnData False query;
          query = SetReturnRef True query;
          (results, err) = QueryItem E tr query;
          tr = tr @ [EvQueryItem query results err]
      in if err = Some ErrorItemNotFound \<or> length results = 0 then (Inl ErrKeyNotFound, tr)
         else case err of
           Some e \<Rightarrow> (Inl (Ext e), tr)
         | None \<Rightarrow>
             (Inr \<lparr>mdItem = Some (Item_zero\<lparr>Key := key, Label := qrLabel (results ! 0),
                                     Description := qrDescription (results ! 0)\<rparr>),
                   ModificationTime = qrModificationDate (results ! 0)\<rparr>, tr))"

definition Remove :: "env \<Rightarrow> keychain \<Rightarrow> string \<Rightarrow> trace \<Rightarrow> error option \<times> trace" where
  "Remove E k key tr =
     (let item = NewItem;
          item = SetSecClass SecClassGenericPassword item;
          item = SetService (service k) item;
          item = SetAccount key item
      in if path k \<noteq> '''' then
           (let kc = NewWithPath (path k);
                err = Status E tr kc;
                tr = tr @ [EvStatus kc err]
            in case err of
                 Some e \<Rightarrow>
                   if e = ErrorNoSuchKeychain then (Some ErrKeyNotFound, tr)
                   else (Some (Ext e), tr)
               | None \<Rightarrow>
                   (let item = SetMatchSearchList [kc] item;
                        d = DeleteItem E tr item
                    in (map_option Ext d, tr @ [EvDeleteItem item d])))
         else
           (let d = DeleteItem E tr item
            in (map_option Ext d, tr @ [EvDeleteItem item d])))"

text \<open>The result of \<open>Keys\<close>: \<open>Inr []\<close> is the empty slice \<open>[]string{}\<close> with a nil error.\<close>

definition Keys :: "env \<Rightarrow> keychain \<Rightarrow> trace \<Rightarrow> (error + string list) \<times> trace" where
  "Keys E k tr =
     (let query = NewItem;
          query = SetSecClass SecClassGenericPassword query;
          query = SetService (service k) query;
          query = SetMatchLimit MatchLimitAll query;
          query = SetReturnAttributes True query;
          run = (\<lambda>query tr.
            (let (results, err) = QueryItem E tr query;
                 tr = tr @ [EvQueryItem query results err]
             in case err of
                  Some e \<Rightarrow> (Inl (Ext e), tr)
                | None \<Rightarrow> (Inr (map qrAccount results), tr)))
      in if path k \<noteq> '''' then
           (let kc = NewWithPath (path k);
                err = Status E tr kc;
                tr = tr @ [EvStatus kc err]
            in case err of
                 Some e \<Rightarrow>
                   if e = ErrorNoSuchKeychain then (Inr [], tr)
                   else (Inl (Ext e), tr)
               | None \<Rightarrow> run (SetMatchSearchList [kc] query) tr)
         else run query tr)"

text \<open>
  The functions below change the receiver (\<open>k.authenticated\<close>, \<open>k.passphrase\<close>), so they
  return it next to the result and the trace.
\<close>

definition setupBiometrics :: "env \<Rightarrow> keychain \<Rightarrow> trace \<Rightarrow> error option \<times> keychain \<times> trace" where
  "setupBiometrics E k tr =
     (let (pw, err) = ReadPassword E tr;
          tr = tr @ [EvReadPassword pw err]
      in case err of
           Some e \<Rightarrow> (Some (Ext e), k, tr)
         | None \<Rightarrow>
             (let l = LockAtPath E tr (path k);
                  tr = tr @ [EvLockAtPath (path k) l];
                  u = UnlockAtPath E tr (path k) pw;
                  tr = tr @ [EvUnlockAtPath (path k) pw u]
              in case u of
                   Some e \<Rightarrow> (Some (Ext e), k, tr)
                 | None \<Rightarrow>
                     (let k = k\<lparr>passphrase := pw\<rparr>;
                          item = NewItem;
                          item = SetSecClass SecClassGenericPassword item;
                          item = SetService biometricsService item;
                          item = SetAccount biometricsAccount item;
                          item = SetLabel (biometricsLabel (path k)) item;
                          item = SetData pw item;
                          item = SetSynchronizable SynchronizableNo item;
                          item = SetAccessible AccessibleWhenUnlocked item;
                          a = AddItem E tr item
                      in (map_option Ext a, k, tr @ [EvAddItem item a]))))"

definition openWithBiometrics :: "env \<Rightarrow> keychain \<Rightarrow> trace \<Rightarrow> (error + Keychain) \<times> keychain \<times> trace" where
  "openWithBiometrics E k tr =
     (if \<not> authenticated k then
        (let (ok, err) = Authenticate E tr (''unlock '' @ path k);
             tr = tr @ [EvAuthenticate (''unlock '' @ path k) ok err]
         in if \<not> ok \<or> err \<noteq> None then
              (Inl (ErrorsNew ''Authentication with biometrics failed''), k, tr)
            else
              (let k = k\<lparr>authenticated := True\<rparr>;
                   query = NewItem;
                   query = SetSecClass SecClassGenericPassword query;
                   query = SetService biometricsService query;
                   query = SetAccount biometricsAccount query;
                   query = SetLabel (biometricsLabel (path k)) query;
                   query = SetMatchLimit MatchLimitOne query;
                   query = SetReturnData True query;
                   (results, err) = QueryItem E tr query;
                   tr = tr @ [EvQueryItem query results err]
               in case err of
                    Some e \<Rightarrow> (Inl (Ext e), k, tr)
                  | None \<Rightarrow>
                      if length results \<noteq> 1 then
                        (case setupBiometrics E k tr of
                           (Some e, k, tr) \<Rightarrow> (Inl e, k, tr)
                         | (None, k, tr) \<Rightarrow> (Inr (NewWithPath (path k)), k, tr))
                      else
                        (let u = UnlockAtPath E tr (path k) (qrData (results ! 0));
                             tr = tr @ [EvUnlockAtPath (path k) (qrData (results ! 0)) u]
                         in case u of
                              Some e \<Rightarrow> (Inl (Ext e), k, tr)
                            | None \<Rightarrow>
                                (let k = k\<lparr>passphrase := qrData (results ! 0)\<rparr>
                                 in (Inr (NewWithPath (path k)), k, tr)))))
      else (Inr (NewWithPath (path k)), k, tr))"

definition createOrOpen :: "env \<Rightarrow> keychain \<Rightarrow> trace \<Rightarrow> (error + Keychain) \<times> keychain \<times> trace" where
  "createOrOpen E k tr =
     (let kc = NewWithPath (path k);
          err = Status E tr kc;
          tr = tr @ [EvStatus kc err]
      in case err of
           None \<Rightarrow> openWithBiometrics E k tr
         | Some e \<Rightarrow>
             if e \<noteq> ErrorNoSuchKeychain then (Inl (Ext e), k, tr)
             else
               (case passwordFunc k of
                  None \<Rightarrow>
                    (let (kc, cerr) = NewKeychainWithPrompt E tr (path k);
                         tr = tr @ [EvNewKeychainWithPrompt (path k) kc cerr]
                     in case cerr of
                          Some e \<Rightarrow> (Inl (Ext e), k, tr)
                        | None \<Rightarrow> (Inr kc, k, tr))
                | Some f \<Rightarrow>
                    (let (pw, err) = f tr ''Enter passphrase for keychain'';
                         tr = tr @ [EvPasswordFunc ''Enter passphrase for keychain'' pw err]
                     in case err of
                          Some e \<Rightarrow> (Inl (Ext e), k, tr)
                        | None \<Rightarrow>
                            (let (kc, cerr) = NewKeychain E tr (path k) pw;
                                 tr = tr @ [EvNewKeychain (path k) pw kc cerr]
                             in case cerr of
                                  Some e \<Rightarrow> (Inl (Ext e), k, tr)
                                | None \<Rightarrow> (Inr kc, k, tr)))))"

text \<open>
  \<open>Set\<close> declares \<open>var kc gokeychain.Keychain\<close>, the zero value, and assigns it only when a
  path is configured. An error of \<open>AddItem\<close> other than the duplicate sentinel falls
  through to \<open>return nil\<close>.
\<close>

definition Set :: "env \<Rightarrow> keychain \<Rightarrow> Item \<Rightarrow> trace \<Rightarrow> error option \<times> keychain \<times> trace" where
  "Set E k item tr =
     (case (if path k \<noteq> '''' then createOrOpen E k tr
            else (Inr (NewWithPath ''''), k, tr)) of
        (Inl e, k, tr) \<Rightarrow> (Some e, k, tr)
      | (Inr kc, k, tr) \<Rightarrow>
          (let kcItem = NewItem;
               kcItem = SetSecClass SecClassGenericPassword kcItem;
               kcItem = SetService (service k) kcItem;
               kcItem = SetAccount (Key item) kcItem;
               kcItem = SetLabel (Label item) kcItem;
               kcItem = SetDescription (Description item) kcItem;
               kcItem = SetData (Data item) kcItem;
               kcItem = (if path k \<noteq> '''' then UseKeychain kc kcItem else kcItem);
               kcItem = (if isSynchronizable k \<and> \<not> KeychainNotSynchronizable item
                         then SetSynchronizable SynchronizableYes kcItem else kcItem);
               kcItem = (if isAccessibleWhenUnlocked k
                         then SetAccessible AccessibleWhenUnlocked kcItem else kcItem);
               isTrusted = (isTrusted k \<and> \<not> KeychainNotTrustApplication item);
               kcItem = (if isTrusted
                         then SetAccess (Some \<lparr>accLabel = Label item,
                                               TrustedApplications = None\<rparr>) kcItem
                         else SetAccess (Some \<lparr>accLabel = Label item,
                                               TrustedApplications = Some []\<rparr>) kcItem);
               a = AddItem E tr kcItem;
               tr = tr @ [EvAddItem kcItem a]
           in if a = Some ErrorDuplicateItem then
                (let queryItem = NewItem;
                     queryItem = SetSecClass SecClassGenericPassword queryItem;
                     queryItem = SetService (service k) queryItem;
                     queryItem = SetAccount (Key item) queryItem;
                     queryItem = SetMatchLimit MatchLimitOne queryItem;
                     queryItem = SetReturnAttributes True queryItem;
                     queryItem = (if path k \<noteq> '''' then SetMatchSearchList [kc] queryItem
                                  else queryItem);
                     (results, err) = QueryItem E tr queryItem;
                     tr = tr @ [EvQueryItem queryItem results err]
                 in case err of
                      Some e \<Rightarrow> (Some (FmtErrorf ''Failed to query keychain: '' e), k, tr)
                    | None \<Rightarrow>
                        if length results = 0 then (Some (ErrorsNew ''no results''), k, tr)
                        else
                          (let kcItem = SetAccess None kcItem;
                               u = UpdateItem E tr queryItem kcItem;
                               tr = tr @ [EvUpdateItem queryItem kcItem u]
                           in case u of
                                Some e \<Rightarrow>
                                  (Some (FmtErrorf ''Failed to update item in keychain: '' e),
                                   k, tr)
                              | None \<Rightarrow> (None, k, tr)))
              else (None, k, tr)))"

subsection \<open>Sequences of operations on one instance\<close>

text \<open>
  The five operations of the \<open>Keyring\<close> interface and their results, run one after the
  other on the same instance and against the same collaborators.
\<close>

datatype operation =
    OpGet string
  | OpGetMetadata string
  | OpSet Item
  | OpRemove string
  | OpKeys

datatype outcome =
    ResGet "error + Item"
  | ResGetMetadata "error + Metadata"
  | ResSet "error option"
  | ResRemove "error option"
  | ResKeys "error + string list"

fun run_op :: "env \<Rightarrow> keychain \<Rightarrow> operation \<Rightarrow> trace \<Rightarrow> outcome \<times> keychain \<times> trace" where
  "run_op E k (OpGet key) tr = (let (r, tr) = Get E k key tr in (ResGet r, k, tr))"
| "run_op E k (OpGetMetadata key) tr =
     (let (r, tr) = GetMetadata E k key tr in (ResGetMetadata r, k, tr))"
| "run_op E k (OpSet item) tr = (let (r, k, tr) = Set E k item tr in (ResSet r, k, tr))"
| "run_op E k (OpRemove key) tr = (let (r, tr) = Remove E k key tr in (ResRemove r, k, tr))"
| "run_op E k OpKeys tr = (let (r, tr) = Keys E k tr in (ResKeys r, k, tr))"

fun run_ops :: "env \<Rightarrow> keychain \<Rightarrow> operation list \<Rightarrow> trace \<Rightarrow> outcome list \<times> keychain \<times> trace" where
  "run_ops E k [] tr = ([], k, tr)"
| "run_ops E k (op # ops) tr =
     (let (r, k, tr) = run_op E k op tr;
          (rs, k, tr) = run_ops E k ops tr
      in (r # rs, k, tr))"

subsection \<open>Reading a trace\<close>

text \<open>
  The biometric challenges of a trace, in order: \<open>True\<close> for a challenge that the gate
  accepts (\<open>ok\<close> and a nil error), \<open>False\<close> for one that it rejects.
\<close>

fun challenges :: "trace \<Rightarrow> bool list" where
  "challenges [] = []"
| "challenges (EvAuthenticate p ok err # evs) = (ok \<and> err = None) # challenges evs"
| "challenges (_ # evs) = challenges evs"

fun is_create :: "event \<Rightarrow> bool" where
  "is_create (EvNewKeychain _ _ _ _) = True"
| "is_create (EvNewKeychainWithPrompt _ _ _) = True"
| "is_create _ = False"

fun is_unlock :: "event \<Rightarrow> bool" where
  "is_unlock (EvUnlockAtPath _ _ _) = True"
| "is_unlock _ = False"

text \<open>The events by which the store opener and the biometric gate show in a trace.\<close>

fun is_opener :: "event \<Rightarrow> bool" where
  "is_opener (EvStatus _ _) = True"
| "is_opener (EvAuthenticate _ _ _) = True"
| "is_opener (EvLockAtPath _ _) = True"
| "is_opener (EvUnlockAtPath _ _ _) = True"
| "is_opener (EvNewKeychain _ _ _ _) = True"
| "is_opener (EvNewKeychainWithPrompt _ _ _) = True"
| "is_opener (EvReadPassword _ _) = True"
| "is_opener (EvPasswordFunc _ _ _) = True"
| "is_opener _ = False"

text \<open>
  Names for two values inside \<open>Set\<close>, used to state its properties: the item as it stands
  when \<open>Set\<close> calls \<open>AddItem\<close> (lines 139 to 173) and the query that \<open>Set\<close> builds
  after a duplicate (lines 179 to 188). \<open>Set_unfold\<close> below shows that they are the values
  that \<open>Set\<close> computes.
\<close>

definition Set_kcItem :: "keychain \<Rightarrow> Keychain \<Rightarrow> Item \<Rightarrow> kcItem" where
  "Set_kcItem k kc item =
     (let kcItem = NewItem;
          kcItem = SetSecClass SecClassGenericPassword kcItem;
          kcItem = SetService (service k) kcItem;
          kcItem = SetAccount (Key item) kcItem;
          kcItem = SetLabel (Label item) kcItem;
          kcItem = SetDescription (Description item) kcItem;
          kcItem = SetData (Data item) kcItem;
          kcItem = (if path k \<noteq> '''' then UseKeychain kc kcItem else kcItem);
          kcItem = (if isSynchronizable k \<and> \<not> KeychainNotSynchronizable item
                    then SetSynchronizable SynchronizableYes kcItem else kcItem);
          kcItem = (if isAccessibleWhenUnlocked k
                    then SetAccessible AccessibleWhenUnlocked kcItem else kcItem);
          isTrusted = (isTrusted k \<and> \<not> KeychainNotTrustApplication item);
          kcItem = (if isTrusted
                    then SetAccess (Some \<lparr>accLabel = Label item,
                                          TrustedApplications = None\<rparr>) kcItem
                    else SetAccess (Some \<lparr>accLabel = Label item,
                                          TrustedApplications = Some []\<rparr>) kcItem)
      in kcItem)"

definition Set_queryItem :: "keychain \<Rightarrow> Keychain \<Rightarrow> Item \<Rightarrow> kcItem" where
  "Set_queryItem k kc item =
     (let queryItem = NewItem;
          queryItem = SetSecClass SecClassGenericPassword queryItem;
          queryItem = SetService (service k) queryItem;
          queryItem = SetAccount (Key item) queryItem;
          queryItem = SetMatchLimit MatchLimitOne queryItem;
          queryItem = SetReturnAttributes True queryItem;
          queryItem = (if path k \<noteq> '''' then SetMatchSearchList [kc] queryItem
                       else queryItem)
      in queryItem)"

text \<open>Whether a provider call is directed at a keychain, by a search list or a target.\<close>

definition item_names_keychain :: "kcItem \<Rightarrow> bool" where
  "item_names_keychain it \<longleftrightarrow> attrMatchSearchList it \<noteq> None \<or> attrUseKeychain it \<noteq> None"

fun names_keychain :: "event \<Rightarrow> bool" where
  "names_keychain (EvQueryItem q _ _) = item_names_keychain q"
| "names_keychain (EvAddItem it _) = item_names_keychain it"
| "names_keychain (EvUpdateItem q it _) = (item_names_keychain q \<or> item_names_keychain it)"
| "names_keychain (EvDeleteItem it _) = item_names_keychain it"
| "names_keychain _ = False"

text \<open>
  The fields of an instance that no method assigns: the instance with its authentication
  state (\<open>authenticated\<close>, \<open>passphrase\<close>) reset.
\<close>

definition settings :: "keychain \<Rightarrow> keychain" where
  "settings k = k\<lparr>passphrase := [], authenticated := False\<rparr>"

subsection \<open>Collaborators and instances for the examples\<close>

text \<open>
  A collaborator stub that answers the same whatever the history: the status of the
  keychain, the answer to every query, the results of adding and of unlocking, and the
  verdict of the authenticator are given; every other call succeeds.
\<close>

definition stub_env ::
  "ext_error option \<Rightarrow> QueryResult list \<times> ext_error option \<Rightarrow> ext_error option
     \<Rightarrow> ext_error option \<Rightarrow> bool \<times> ext_error option \<Rightarrow> env" where
  "stub_env st q ad un au =
     \<lparr>Status = (\<lambda>_ _. st), QueryItem = (\<lambda>_ _. q), AddItem = (\<lambda>_ _. ad),
      UpdateItem = (\<lambda>_ _ _. None), DeleteItem = (\<lambda>_ _. None),
      LockAtPath = (\<lambda>_ _. None), UnlockAtPath = (\<lambda>_ _ _. un),
      NewKeychain = (\<lambda>_ p _. (NewWithPath p, None)),
      NewKeychainWithPrompt = (\<lambda>_ p. (NewWithPath p, None)),
      Authenticate = (\<lambda>_ _. au), ReadPassword = (\<lambda>_. (''secret2'', None))\<rparr>"

definition entry_db :: QueryResult where
  "entry_db = \<lparr>qrAccount = ''db'', qrData = ''pw'', qrLabel = ''database'',
     qrDescription = ''password'', qrModificationDate = 0\<rparr>"

definition item_db :: Item where
  "item_db = \<lparr>Key = ''db'', Data = ''pw'', Label = ''database'',
     Description = ''password'', KeychainNotTrustApplication = False,
     KeychainNotSynchronizable = False\<rparr>"

text \<open>A configuration that names a keychain, and the instance the constructor makes of it.\<close>

definition cfg_login :: Config where
  "cfg_login = \<lparr>ServiceName = ''svc'', KeychainName = ''login'',
     KeychainPasswordFunc = None, KeychainAccessibleWhenUnlocked = False,
     KeychainTrustApplication = True, KeychainSynchronizable = True\<rparr>"

definition kc_login :: keychain where
  "kc_login = \<lparr>path = ''login.keychain'', service = ''svc'', passphrase = [],
     authenticated = False, passwordFunc = None, isSynchronizable = False,
     isAccessibleWhenUnlocked = False, isTrusted = True\<rparr>"

text \<open>A configuration that names no keychain, and its instance.\<close>

definition cfg_default :: Config where
  "cfg_default = \<lparr>ServiceName = ''svc'', KeychainName = [],
     KeychainPasswordFunc = None, KeychainAccessibleWhenUnlocked = False,
     KeychainTrustApplication = False, KeychainSynchronizable = True\<rparr>"

definition kc_default :: keychain where
  "kc_default = \<lparr>path = [], service = ''svc'', passphrase = [],
     authenticated = False, passwordFunc = None, isSynchronizable = False,
     isAccessibleWhenUnlocked = False, isTrusted = False\<rparr>"

text \<open>Two password functions: one that supplies a passphrase and one that fails.\<close>

definition prompt_secret1 :: PromptFunc where
  "prompt_secret1 tr p = (''secret1'', None)"

definition prompt_cancelled :: PromptFunc where
  "prompt_cancelled tr p = ([], Some (ErrorOther ''cancelled''))"

section \<open>Properties\<close>

lemmas setters =
  NewItem_def SetSecClass_def SetService_def SetAccount_def SetLabel_def
  SetDescription_def SetData_def SetMatchLimit_def SetReturnAttributes_def
  SetReturnData_def SetReturnRef_def SetMatchSearchList_def UseKeychain_def
  SetSynchronizable_def SetAccessible_def SetAccess_def

subsection \<open>Instances of the examples\<close>

lemma init_opener_cfg_login: "init_opener cfg_login = Inr kc_login"
  by (simp add: init_opener_def cfg_login_def kc_login_def)

lemma init_opener_cfg_default: "init_opener cfg_default = Inr kc_default"
  by (simp add: init_opener_def cfg_default_def kc_default_def)

subsection \<open>What each function adds to the trace and changes in the instance\<close>

lemma challenges_append: "challenges (xs @ ys) = challenges xs @ challenges ys"
  by (induction xs rule: challenges.induct) auto

lemma settings_authenticated [simp]: "settings (k\<lparr>authenticated := b\<rparr>) = settings k"
  by (simp add: settings_def)

lemma settings_passphrase [simp]: "settings (k\<lparr>passphrase := p\<rparr>) = settings k"
  by (simp add: settings_def)

lemma settings_fields:
  assumes "settings k' = settings k"
  shows "path k' = path k" and "service k' = service k"
    and "passwordFunc k' = passwordFunc k" and "isSynchronizable k' = isSynchronizable k"
    and "isAccessibleWhenUnlocked k' = isAccessibleWhenUnlocked k"
    and "isTrusted k' = isTrusted k"
proof -
  have "path (settings k') = path (settings k)"
    and "service (settings k') = service (settings k)"
    and "passwordFunc (settings k') = passwordFunc (settings k)"
    and "isSynchronizable (settings k') = isSynchronizable (settings k)"
    and "isAccessibleWhenUnlocked (settings k') = isAccessibleWhenUnlocked (settings k)"
    and "isTrusted (settings k') = isTrusted (settings k)"
    using assms by simp_all
  then show "path k' = path k" and "service k' = service k"
    and "passwordFunc k' = passwordFunc k" and "isSynchronizable k' = isSynchronizable k"
    and "isAccessibleWhenUnlocked k' = isAccessibleWhenUnlocked k"
    and "isTrusted k' = isTrusted k"
    by (simp_all add: settings_def)
qed

lemma setupBiometrics_effect:
  assumes "setupBiometrics E k tr = (r, k', tr')"
  shows "\<exists>evs. tr' = tr @ evs \<and> challenges evs = [] \<and> (\<forall>ev\<in>set evs. \<not> is_create ev)
           \<and> settings k' = settings k \<and> authenticated k' = authenticated k"
  using assms unfolding setupBiometrics_def Let_def settings_def
  by (auto split: prod.splits option.splits)

lemma openWithBiometrics_authenticated:
  "authenticated k \<Longrightarrow> openWithBiometrics E k tr = (Inr (NewWithPath (path k)), k, tr)"
  by (simp add: openWithBiometrics_def)

lemma openWithBiometrics_effect_aux:
  "\<not> authenticated k \<Longrightarrow>
   (case openWithBiometrics E k tr of (r, k', tr') \<Rightarrow>
      \<exists>evs. tr' = tr @ evs \<and> (\<forall>ev\<in>set evs. \<not> is_create ev)
           \<and> settings k' = settings k \<and> challenges evs = [authenticated k'])"
  unfolding openWithBiometrics_def Let_def
  by (auto split: prod.split option.split dest!: setupBiometrics_effect
           simp: challenges_append)

lemma openWithBiometrics_effect:
  assumes "openWithBiometrics E k tr = (r, k', tr')"
  shows "\<exists>evs. tr' = tr @ evs \<and> (\<forall>ev\<in>set evs. \<not> is_create ev)
           \<and> settings k' = settings k
           \<and> (if authenticated k then evs = [] \<and> k' = k
               else challenges evs = [authenticated k'])"
proof (cases "authenticated k")
  case True
  with assms show ?thesis by (simp add: openWithBiometrics_authenticated)
next
  case False
  from openWithBiometrics_effect_aux[OF False, where E=E and tr=tr] assms False
  show ?thesis by simp
qed

lemma createOrOpen_exists:
  assumes "Status E tr (NewWithPath (path k)) = None"
  shows "createOrOpen E k tr =
           openWithBiometrics E k (tr @ [EvStatus (NewWithPath (path k)) None])"
  using assms by (simp add: createOrOpen_def Let_def)

lemma createOrOpen_absent_aux:
  assumes "Status E tr (NewWithPath (path k)) = Some e"
  shows "case createOrOpen E k tr of (r, k', tr') \<Rightarrow>
           k' = k \<and> (\<exists>evs. tr' = tr @ evs \<and> challenges evs = []
                        \<and> (\<forall>ev\<in>set evs. \<not> is_unlock ev))"
  using assms unfolding createOrOpen_def Let_def
  by (auto split: prod.split option.split)

lemma createOrOpen_effect:
  assumes "createOrOpen E k tr = (r, k', tr')"
  shows "\<exists>evs. tr' = tr @ evs \<and> settings k' = settings k
           \<and> (authenticated k \<longrightarrow> challenges evs = [] \<and> authenticated k')
           \<and> (\<not> authenticated k \<longrightarrow>
                 challenges evs = [] \<and> \<not> authenticated k'
               \<or> challenges evs = [authenticated k'])
           \<and> ((\<forall>ev\<in>set evs. \<not> is_create ev) \<or> (\<forall>ev\<in>set evs. \<not> is_unlock ev))"
proof (cases "Status E tr (NewWithPath (path k))")
  case None
  let ?tr1 = "tr @ [EvStatus (NewWithPath (path k)) None]"
  from assms None have "openWithBiometrics E k ?tr1 = (r, k', tr')"
    by (simp add: createOrOpen_exists)
  from openWithBiometrics_effect[OF this] obtain evs where
    evs: "tr' = ?tr1 @ evs" "\<forall>ev\<in>set evs. \<not> is_create ev" "settings k' = settings k"
         "if authenticated k then evs = [] \<and> k' = k else challenges evs = [authenticated k']"
    by blast
  have "tr' = tr @ (EvStatus (NewWithPath (path k)) None # evs)" using evs(1) by simp
  moreover have "\<forall>ev\<in>set (EvStatus (NewWithPath (path k)) None # evs). \<not> is_create ev"
    using evs(2) by simp
  moreover have "challenges (EvStatus (NewWithPath (path k)) None # evs) = challenges evs"
    by simp
  ultimately show ?thesis using evs(3,4)
    by (intro exI[of _ "EvStatus (NewWithPath (path k)) None # evs"]) (auto split: if_splits)
next
  case (Some e)
  from createOrOpen_absent_aux[OF Some] assms show ?thesis by auto
qed

lemma Set_unfold:
  "Set E k item tr =
     (case (if path k \<noteq> [] then createOrOpen E k tr
            else (Inr (NewWithPath []), k, tr)) of
        (Inl e, k1, tr1) \<Rightarrow> (Some e, k1, tr1)
      | (Inr kc, k1, tr1) \<Rightarrow>
          (let it = Set_kcItem k1 kc item;
               a = AddItem E tr1 it;
               tr2 = tr1 @ [EvAddItem it a]
           in if a = Some ErrorDuplicateItem then
                (let q = Set_queryItem k1 kc item;
                     (results, err) = QueryItem E tr2 q;
                     tr3 = tr2 @ [EvQueryItem q results err]
                 in case err of
                      Some e \<Rightarrow> (Some (FmtErrorf ''Failed to query keychain: '' e), k1, tr3)
                    | None \<Rightarrow>
                        if length results = 0 then (Some (ErrorsNew ''no results''), k1, tr3)
                        else
                          (let it' = SetAccess None it;
                               u = UpdateItem E tr3 q it';
                               tr4 = tr3 @ [EvUpdateItem q it' u]
                           in case u of
                                Some e \<Rightarrow>
                                  (Some (FmtErrorf ''Failed to update item in keychain: '' e),
                                   k1, tr4)
                              | None \<Rightarrow> (None, k1, tr4)))
              else (None, k1, tr2)))"
  unfolding Set_def Set_kcItem_def Set_queryItem_def Let_def
  by (rule refl)

lemma Set_kcItem_attrs:
  "attrService (Set_kcItem k kc item) = Some (service k)"
  "attrAccount (Set_kcItem k kc item) = Some (Key item)"
  "attrLabel (Set_kcItem k kc item) = Some (Label item)"
  "attrDescription (Set_kcItem k kc item) = Some (Description item)"
  "attrData (Set_kcItem k kc item) = Some (Data item)"
  "attrMatchSearchList (Set_kcItem k kc item) = None"
  "attrUseKeychain (Set_kcItem k kc item) = (if path k \<noteq> [] then Some kc else None)"
  "attrSynchronizable (Set_kcItem k kc item) =
     (if isSynchronizable k \<and> \<not> KeychainNotSynchronizable item
      then Some SynchronizableYes else None)"
  "attrAccess (Set_kcItem k kc item) =
     Some \<lparr>accLabel = Label item,
           TrustedApplications =
             (if isTrusted k \<and> \<not> KeychainNotTrustApplication item then None else Some [])\<rparr>"
  by (simp_all add: Set_kcItem_def Let_def setters)

lemma Set_queryItem_attrs:
  "attrService (Set_queryItem k kc item) = Some (service k)"
  "attrAccount (Set_queryItem k kc item) = Some (Key item)"
  "attrUseKeychain (Set_queryItem k kc item) = None"
  "attrMatchSearchList (Set_queryItem k kc item) = (if path k \<noteq> [] then Some [kc] else None)"
  by (simp_all add: Set_queryItem_def Let_def setters)

text \<open>
  The events that \<open>Set\<close> adds once the store opener has let it proceed: the create
  attempt, then the query and the update if the provider reported a duplicate.
\<close>

lemma Set_after_opener:
  assumes "path k = [] \<and> kc = NewWithPath [] \<and> k1 = k \<and> tr1 = tr
         \<or> path k \<noteq> [] \<and> createOrOpen E k tr = (Inr kc, k1, tr1)"
      and "it = Set_kcItem k1 kc item" and "a = AddItem E tr1 it"
      and "q = Set_queryItem k1 kc item"
      and "QueryItem E (tr1 @ [EvAddItem it a]) q = (results, err)"
      and "u = UpdateItem E (tr1 @ [EvAddItem it a, EvQueryItem q results err]) q
                 (it\<lparr>attrAccess := None\<rparr>)"
  shows "Set E k item tr =
     (if a \<noteq> Some ErrorDuplicateItem then (None, k1, tr1 @ [EvAddItem it a])
      else case err of
        Some e \<Rightarrow> (Some (FmtErrorf ''Failed to query keychain: '' e), k1,
                   tr1 @ [EvAddItem it a, EvQueryItem q results err])
      | None \<Rightarrow>
          if results = [] then
            (Some (ErrorsNew ''no results''), k1,
             tr1 @ [EvAddItem it a, EvQueryItem q results err])
          else
            (map_option (FmtErrorf ''Failed to update item in keychain: '') u, k1,
             tr1 @ [EvAddItem it a, EvQueryItem q results err,
                    EvUpdateItem q (it\<lparr>attrAccess := None\<rparr>) u]))"
proof -
  let ?it = "Set_kcItem k1 kc item" and ?q = "Set_queryItem k1 kc item"
  have opened: "(if path k \<noteq> [] then createOrOpen E k tr else (Inr (NewWithPath []), k, tr))
                  = (Inr kc, k1, tr1)"
    using assms(1) by auto
  show ?thesis
  proof (cases "a = Some ErrorDuplicateItem")
    case False
    then have "AddItem E tr1 ?it \<noteq> Some ErrorDuplicateItem"
      using assms(2,3) by simp
    then have "Set E k item tr = (None, k1, tr1 @ [EvAddItem ?it (AddItem E tr1 ?it)])"
      unfolding Set_unfold opened by (simp add: Let_def)
    with False show ?thesis using assms(2,3) by simp
  next
    case True
    then have dup: "AddItem E tr1 ?it = Some ErrorDuplicateItem"
      using assms(2,3) by simp
    have qr: "QueryItem E (tr1 @ [EvAddItem ?it (Some ErrorDuplicateItem)]) ?q = (results, err)"
      using assms(2-5) True by simp
    have u: "UpdateItem E (tr1 @ [EvAddItem ?it (Some ErrorDuplicateItem),
                                  EvQueryItem ?q results err]) ?q (?it\<lparr>attrAccess := None\<rparr>) = u"
      using assms(2-4,6) True by simp
    have "Set E k item tr =
       (case err of
          Some e \<Rightarrow> (Some (FmtErrorf ''Failed to query keychain: '' e), k1,
                     tr1 @ [EvAddItem ?it (Some ErrorDuplicateItem), EvQueryItem ?q results err])
        | None \<Rightarrow>
            if results = [] then
              (Some (ErrorsNew ''no results''), k1,
               tr1 @ [EvAddItem ?it (Some ErrorDuplicateItem), EvQueryItem ?q results err])
            else
              (map_option (FmtErrorf ''Failed to update item in keychain: '') u, k1,
               tr1 @ [EvAddItem ?it (Some ErrorDuplicateItem), EvQueryItem ?q results err,
                      EvUpdateItem ?q (?it\<lparr>attrAccess := None\<rparr>) u]))"
      unfolding Set_unfold opened using qr u
      by (cases err) (auto simp add: Let_def dup SetAccess_def split: option.split)
    with True show ?thesis using assms(2,4) by (simp split: option.split)
  qed
qed

subsection \<open>Get\<close>

text \<open>
  Claim C6. \<open>Get\<close> puts one query for the entry of (service, key) to the provider. It
  fails with \<open>ErrKeyNotFound\<close> exactly when the provider reports item-not-found or returns
  no entry; any other failure of the provider is returned as it is; and when the provider
  succeeds with at least one entry, \<open>Get\<close> returns an item with the given key whose data,
  label and description are those of the first entry.
\<close>

theorem Get_result:
  "\<exists>q results err.
      snd (Get E k key tr) = tr @ [EvQueryItem q results err]
    \<and> QueryItem E tr q = (results, err)
    \<and> attrService q = Some (service k) \<and> attrAccount q = Some key
    \<and> (fst (Get E k key tr) = Inl ErrKeyNotFound
         \<longleftrightarrow> err = Some ErrorItemNotFound \<or> results = [])
    \<and> (\<forall>e. err = Some e \<and> e \<noteq> ErrorItemNotFound \<and> results \<noteq> []
         \<longrightarrow> fst (Get E k key tr) = Inl (Ext e))
    \<and> (err = None \<and> results \<noteq> []
         \<longrightarrow> (\<exists>it. fst (Get E k key tr) = Inr it \<and> Key it = key
                \<and> Data it = qrData (results ! 0) \<and> Label it = qrLabel (results ! 0)
                \<and> Description it = qrDescription (results ! 0)))"
  unfolding Get_def Let_def
  by (auto simp: setters Item_zero_def split: prod.splits option.splits)

theorem Get_result_witness:
  "fst (Get (stub_env None ([entry_db], None) None None (True, None)) kc_login ''db'' [])
     = Inr item_db
   \<and> fst (Get (stub_env None ([], None) None None (True, None)) kc_login ''db'' [])
     = Inl ErrKeyNotFound
   \<and> fst (Get (stub_env None ([entry_db], Some ErrorItemNotFound) None None (True, None))
          kc_login ''db'' [])
     = Inl ErrKeyNotFound
   \<and> fst (Get (stub_env None ([entry_db], Some (ErrorOther ''io'')) None None (True, None))
          kc_login ''db'' [])
     = Inl (Ext (ErrorOther ''io''))"
  using Get_result [of "stub_env None ([entry_db], None) None None (True, None)"
                       kc_login "''db''" "[]"]
        Get_result [of "stub_env None ([], None) None None (True, None)"
                       kc_login "''db''" "[]"]
        Get_result [of "stub_env None ([entry_db], Some ErrorItemNotFound) None None (True, None)"
                       kc_login "''db''" "[]"]
        Get_result [of "stub_env None ([entry_db], Some (ErrorOther ''io'')) None None (True, None)"
                       kc_login "''db''" "[]"]
  by (simp add: Get_def Let_def stub_env_def kc_login_def entry_db_def item_db_def
        Item_zero_def setters)

subsection \<open>Keys\<close>

text \<open>
  Claim C7. With a keychain configured, \<open>Keys\<close> asks for its status first. When the
  status is the no-such-keychain error, \<open>Keys\<close> returns the empty sequence and no error;
  any other status error is returned as the error. In both cases no query is made.
\<close>

theorem Keys_status_error:
  assumes "path k \<noteq> []"
      and "Status E tr (NewWithPath (path k)) = Some e"
  shows "Keys E k tr =
           (if e = ErrorNoSuchKeychain then Inr [] else Inl (Ext e),
            tr @ [EvStatus (NewWithPath (path k)) (Some e)])"
  using assms by (simp add: Keys_def Let_def)

theorem Keys_status_error_witness:
  "path kc_login \<noteq> []
   \<and> Keys (stub_env (Some ErrorNoSuchKeychain) ([entry_db], None) None None (True, None))
        kc_login []
     = (Inr [], [EvStatus (NewWithPath ''login.keychain'') (Some ErrorNoSuchKeychain)])
   \<and> Keys (stub_env (Some (ErrorOther ''io'')) ([entry_db], None) None None (True, None))
        kc_login []
     = (Inl (Ext (ErrorOther ''io'')),
        [EvStatus (NewWithPath ''login.keychain'') (Some (ErrorOther ''io''))])"
  using Keys_status_error [of kc_login
          "stub_env (Some ErrorNoSuchKeychain) ([entry_db], None) None None (True, None)"
          "[]" ErrorNoSuchKeychain]
        Keys_status_error [of kc_login
          "stub_env (Some (ErrorOther ''io'')) ([entry_db], None) None None (True, None)"
          "[]" "ErrorOther ''io''"]
  by (simp add: stub_env_def kc_login_def)

subsection \<open>The biometric gate\<close>

text \<open>
  Claim C8. When an instance that is not yet authenticated enters the gate and the
  challenge comes back negative or with an error, the gate fails with the error
  "Authentication with biometrics failed", the instance is unchanged (\<open>authenticated\<close>
  stays false, \<open>passphrase\<close> is what it was) and the challenge is the only call made:
  there is no second challenge. A \<open>Set\<close> that reached the gate through an existing
  keychain fails with the same error.
\<close>

theorem gate_challenge_rejected:
  assumes "\<not> authenticated k"
      and "Authenticate E tr (''unlock '' @ path k) = (ok, err)"
      and "\<not> ok \<or> err \<noteq> None"
  shows "openWithBiometrics E k tr =
           (Inl (ErrorsNew ''Authentication with biometrics failed''), k,
            tr @ [EvAuthenticate (''unlock '' @ path k) ok err])
       \<and> (\<forall>tr0 item. path k \<noteq> [] \<and> Status E tr0 (NewWithPath (path k)) = None
              \<and> tr = tr0 @ [EvStatus (NewWithPath (path k)) None]
            \<longrightarrow> Set E k item tr0 =
                  (Some (ErrorsNew ''Authentication with biometrics failed''), k,
                   tr @ [EvAuthenticate (''unlock '' @ path k) ok err]))"
proof -
  have gate: "openWithBiometrics E k tr =
           (Inl (ErrorsNew ''Authentication with biometrics failed''), k,
            tr @ [EvAuthenticate (''unlock '' @ path k) ok err])"
    using assms by (auto simp: openWithBiometrics_def Let_def)
  have "Set E k item tr0 =
          (Some (ErrorsNew ''Authentication with biometrics failed''), k,
           tr @ [EvAuthenticate (''unlock '' @ path k) ok err])"
    if a: "path k \<noteq> [] \<and> Status E tr0 (NewWithPath (path k)) = None
              \<and> tr = tr0 @ [EvStatus (NewWithPath (path k)) None]" for tr0 item
  proof -
    from a have "createOrOpen E k tr0 = openWithBiometrics E k tr"
      by (simp add: createOrOpen_exists)
    with gate a show ?thesis by (simp add: Set_unfold)
  qed
  with gate show ?thesis by blast
qed

theorem gate_challenge_rejected_witness:
  "\<not> authenticated kc_login
   \<and> openWithBiometrics (stub_env None ([], None) None None (False, None)) kc_login []
     = (Inl (ErrorsNew ''Authentication with biometrics failed''), kc_login,
        [EvAuthenticate ''unlock login.keychain'' False None])
   \<and> Set (stub_env None ([], None) None None (True, Some (ErrorOther ''sensor''))) kc_login
        item_db []
     = (Some (ErrorsNew ''Authentication with biometrics failed''), kc_login,
        [EvStatus (NewWithPath ''login.keychain'') None,
         EvAuthenticate ''unlock login.keychain'' True (Some (ErrorOther ''sensor''))])"
  using gate_challenge_rejected [of kc_login
          "stub_env None ([], None) None None (False, None)" "[]" False None]
        gate_challenge_rejected [of kc_login
          "stub_env None ([], None) None None (True, Some (ErrorOther ''sensor''))"
          "[EvStatus (NewWithPath ''login.keychain'') None]" True "Some (ErrorOther ''sensor'')"]
  by (simp add: stub_env_def kc_login_def)

text \<open>
  Claim C9. When the challenge succeeds and the gate then fails all the same (the query
  for the stored passphrase fails, the setup fails, or the unlock with the stored
  passphrase fails), the instance is left authenticated: every later entry into the
  gate, whatever the collaborators would answer, returns the handle of the keychain at
  once, with no call at all, so without a challenge and without an unlock.
\<close>

theorem gate_failure_after_challenge:
  assumes "\<not> authenticated k"
      and "Authenticate E tr (''unlock '' @ path k) = (True, None)"
      and "openWithBiometrics E k tr = (Inl e, k', tr')"
  shows "authenticated k'
       \<and> (\<forall>E' tr2. openWithBiometrics E' k' tr2 = (Inr (NewWithPath (path k')), k', tr2))"
proof -
  have "authenticated (fst (snd (openWithBiometrics E k tr)))"
    using assms(1,2) unfolding openWithBiometrics_def Let_def setupBiometrics_def
    by (auto split: prod.split option.split)
  with assms(3) have "authenticated k'" by simp
  then show ?thesis by (simp add: openWithBiometrics_authenticated)
qed

theorem gate_failure_after_challenge_witness:
  "fst (openWithBiometrics (stub_env None ([], Some (ErrorOther ''io'')) None None (True, None))
          kc_login []) = Inl (Ext (ErrorOther ''io''))
   \<and> fst (openWithBiometrics
            (stub_env None ([], None) None (Some (ErrorOther ''wrong'')) (True, None))
            kc_login []) = Inl (Ext (ErrorOther ''wrong''))
   \<and> fst (openWithBiometrics
            (stub_env None ([entry_db], None) None (Some (ErrorOther ''stale'')) (True, None))
            kc_login []) = Inl (Ext (ErrorOther ''stale''))
   \<and> openWithBiometrics (stub_env None ([], None) None None (False, None))
        (kc_login\<lparr>authenticated := True\<rparr>) []
     = (Inr (NewWithPath ''login.keychain''), kc_login\<lparr>authenticated := True\<rparr>, [])"
proof -
  let ?E1 = "stub_env None ([], Some (ErrorOther ''io'')) None None (True, None)"
  let ?E2 = "stub_env None ([], None) None (Some (ErrorOther ''wrong'')) (True, None)"
  let ?E3 = "stub_env None ([entry_db], None) None (Some (ErrorOther ''stale'')) (True, None)"
  let ?k' = "kc_login\<lparr>authenticated := True\<rparr>"
  have un: "\<not> authenticated kc_login" by (simp add: kc_login_def)
  have f1: "fst (openWithBiometrics ?E1 kc_login []) = Inl (Ext (ErrorOther ''io''))"
    and k1: "fst (snd (openWithBiometrics ?E1 kc_login [])) = ?k'"
    by (simp_all add: openWithBiometrics_def Let_def stub_env_def kc_login_def)
  have f2: "fst (openWithBiometrics ?E2 kc_login []) = Inl (Ext (ErrorOther ''wrong''))"
    and k2: "fst (snd (openWithBiometrics ?E2 kc_login [])) = ?k'"
    by (simp_all add: openWithBiometrics_def setupBiometrics_def Let_def stub_env_def
          kc_login_def)
  have f3: "fst (openWithBiometrics ?E3 kc_login []) = Inl (Ext (ErrorOther ''stale''))"
    and k3: "fst (snd (openWithBiometrics ?E3 kc_login [])) = ?k'"
    by (simp_all add: openWithBiometrics_def Let_def stub_env_def kc_login_def entry_db_def)
  have r1: "openWithBiometrics ?E1 kc_login [] =
              (Inl (Ext (ErrorOther ''io'')), ?k', snd (snd (openWithBiometrics ?E1 kc_login [])))"
    by (simp add: prod_eq_iff f1 k1)
  have r2: "openWithBiometrics ?E2 kc_login [] =
              (Inl (Ext (ErrorOther ''wrong'')), ?k',
               snd (snd (openWithBiometrics ?E2 kc_login [])))"
    by (simp add: prod_eq_iff f2 k2)
  have r3: "openWithBiometrics ?E3 kc_login [] =
              (Inl (Ext (ErrorOther ''stale'')), ?k',
               snd (snd (openWithBiometrics ?E3 kc_login [])))"
    by (simp add: prod_eq_iff f3 k3)
  have a1: "Authenticate ?E1 [] (''unlock '' @ path kc_login) = (True, None)"
    and a2: "Authenticate ?E2 [] (''unlock '' @ path kc_login) = (True, None)"
    and a3: "Authenticate ?E3 [] (''unlock '' @ path kc_login) = (True, None)"
    by (simp_all add: stub_env_def)
  have p: "path ?k' = ''login.keychain''" by (simp add: kc_login_def)
  from gate_failure_after_challenge [OF un a1 r1] gate_failure_after_challenge [OF un a2 r2]
       gate_failure_after_challenge [OF un a3 r3]
  have "openWithBiometrics (stub_env None ([], None) None None (False, None)) ?k' []
          = (Inr (NewWithPath (path ?k')), ?k', [])"
    by blast
  with f1 f2 f3 p show ?thesis by simp
qed

subsection \<open>An instance without a keychain name\<close>

lemma Set_no_path:
  assumes "path k = []"
  shows "fst (snd (Set E k item tr)) = k
       \<and> (\<exists>it a rest. snd (snd (Set E k item tr)) = tr @ EvAddItem it a # rest
            \<and> (\<forall>ev\<in>set (EvAddItem it a # rest). \<not> is_opener ev \<and> \<not> names_keychain ev))"
proof -
  define it where "it = Set_kcItem k (NewWithPath []) item"
  define a where "a = AddItem E tr it"
  define q where "q = Set_queryItem k (NewWithPath []) item"
  obtain results err where qr: "QueryItem E (tr @ [EvAddItem it a]) q = (results, err)"
    by (cases "QueryItem E (tr @ [EvAddItem it a]) q")
  define u where "u = UpdateItem E (tr @ [EvAddItem it a, EvQueryItem q results err]) q
                        (it\<lparr>attrAccess := None\<rparr>)"
  have nk: "\<not> item_names_keychain it" "\<not> item_names_keychain q"
           "\<not> item_names_keychain (it\<lparr>attrAccess := None\<rparr>)"
    using assms
    by (simp_all add: item_names_keychain_def it_def q_def Set_kcItem_attrs Set_queryItem_attrs)
  have "path k = [] \<and> NewWithPath [] = NewWithPath [] \<and> k = k \<and> tr = tr
        \<or> path k \<noteq> [] \<and> createOrOpen E k tr = (Inr (NewWithPath []), k, tr)"
    using assms by simp
  from Set_after_opener [OF this it_def a_def q_def qr u_def]
  show ?thesis using nk by (auto split: option.split)
qed

lemma Remove_no_path:
  assumes "path k = []"
  shows "\<exists>it. attrMatchSearchList it = None
            \<and> Remove E k key tr = (map_option Ext (DeleteItem E tr it),
                                   tr @ [EvDeleteItem it (DeleteItem E tr it)])"
  using assms unfolding Remove_def Let_def
  by (simp add: setters)

lemma Keys_no_path:
  assumes "path k = []"
  shows "\<exists>q results err. attrMatchSearchList q = None
            \<and> QueryItem E tr q = (results, err)
            \<and> Keys E k tr = ((case err of Some e \<Rightarrow> Inl (Ext e)
                                         | None \<Rightarrow> Inr (map qrAccount results)),
                             tr @ [EvQueryItem q results err])"
proof -
  let ?q = "SetReturnAttributes True (SetMatchLimit MatchLimitAll
              (SetService (service k) (SetSecClass SecClassGenericPassword NewItem)))"
  obtain results err where qr: "QueryItem E tr ?q = (results, err)"
    by (cases "QueryItem E tr ?q")
  have "attrMatchSearchList ?q = None" by (simp add: setters)
  moreover have "Keys E k tr = ((case err of Some e \<Rightarrow> Inl (Ext e)
                                         | None \<Rightarrow> Inr (map qrAccount results)),
                             tr @ [EvQueryItem ?q results err])"
    using assms qr unfolding Keys_def Let_def by (simp split: option.split)
  ultimately show ?thesis using qr by blast
qed

lemma init_opener_path:
  "\<exists>k0. init_opener cfg = Inr k0 \<and> (path k0 = [] \<longleftrightarrow> KeychainName cfg = [])"
  by (simp add: init_opener_def Let_def)

text \<open>
  Claim C10. On an instance whose path is empty, which is what the constructor makes of
  a configuration without a keychain name, \<open>Set\<close> calls neither the store opener nor the
  gate: the instance is unchanged, the first call is the create attempt and no call of
  \<open>Set\<close> is a status, authentication, lock, unlock, keychain creation or password call,
  nor names a keychain. \<open>Remove\<close> makes the delete call alone and returns its result, so
  never \<open>ErrKeyNotFound\<close>; \<open>Keys\<close> makes the query alone and returns its accounts or
  its error. Neither asks for the status of a keychain.
\<close>

theorem no_path_no_opener:
  assumes "path k = []"
  shows "fst (snd (Set E k item tr)) = k
       \<and> (\<exists>it a rest. snd (snd (Set E k item tr)) = tr @ EvAddItem it a # rest
            \<and> (\<forall>ev\<in>set (EvAddItem it a # rest). \<not> is_opener ev \<and> \<not> names_keychain ev))
       \<and> (\<exists>it. attrMatchSearchList it = None
            \<and> Remove E k key tr = (map_option Ext (DeleteItem E tr it),
                                   tr @ [EvDeleteItem it (DeleteItem E tr it)]))
       \<and> fst (Remove E k key tr) \<noteq> Some ErrKeyNotFound
       \<and> (\<exists>q results err. attrMatchSearchList q = None
            \<and> QueryItem E tr q = (results, err)
            \<and> Keys E k tr = ((case err of Some e \<Rightarrow> Inl (Ext e)
                                         | None \<Rightarrow> Inr (map qrAccount results)),
                             tr @ [EvQueryItem q results err]))
       \<and> (\<exists>k0. init_opener cfg = Inr k0 \<and> (path k0 = [] \<longleftrightarrow> KeychainName cfg = []))"
proof -
  from Remove_no_path [OF assms, of E key tr]
  have "fst (Remove E k key tr) \<noteq> Some ErrKeyNotFound" by (auto split: option.splits)
  with Set_no_path [OF assms, of E item tr] Remove_no_path [OF assms, of E key tr]
       Keys_no_path [OF assms, of E tr] init_opener_path [of cfg]
  show ?thesis by (intro conjI) blast+
qed

theorem no_path_no_opener_witness:
  "path kc_default = []
   \<and> Set (stub_env (Some ErrorNoSuchKeychain) ([entry_db], None) (Some ErrorDuplicateItem)
            None (False, None)) kc_default item_db []
     = (None, kc_default,
        [EvAddItem (Set_kcItem kc_default (NewWithPath []) item_db) (Some ErrorDuplicateItem),
         EvQueryItem (Set_queryItem kc_default (NewWithPath []) item_db) [entry_db] None,
         EvUpdateItem (Set_queryItem kc_default (NewWithPath []) item_db)
           ((Set_kcItem kc_default (NewWithPath []) item_db)\<lparr>attrAccess := None\<rparr>) None])
   \<and> fst (Remove (stub_env (Some ErrorNoSuchKeychain) ([], None) None None (False, None))
            kc_default ''db'' []) = None
   \<and> fst (Keys (stub_env (Some ErrorNoSuchKeychain) ([entry_db], None) None None (False, None))
            kc_default []) = Inr [''db'']
   \<and> init_opener cfg_default = Inr kc_default"
  using no_path_no_opener [of kc_default
          "stub_env (Some ErrorNoSuchKeychain) ([entry_db], None) (Some ErrorDuplicateItem)
             None (False, None)" item_db "[]" "''db''" cfg_default]
  by (simp add: Set_unfold Remove_def Keys_def Let_def stub_env_def kc_default_def
        entry_db_def setters init_opener_def cfg_default_def)

subsection \<open>Challenges across operations\<close>

lemma challenges_no_opener:
  "\<forall>ev\<in>set evs. \<not> is_opener ev \<Longrightarrow> challenges evs = []"
  by (induction evs rule: challenges.induct) auto

lemma Set_effect:
  assumes "Set E k item tr = (r, k', tr')"
  shows "\<exists>evs. tr' = tr @ evs \<and> settings k' = settings k
           \<and> (authenticated k \<longrightarrow> challenges evs = [] \<and> authenticated k')
           \<and> (\<not> authenticated k \<longrightarrow>
                 challenges evs = [] \<and> \<not> authenticated k'
               \<or> challenges evs = [authenticated k'])"
proof (cases "path k = []")
  case True
  from Set_no_path [OF True, of E item tr] assms
  obtain evs where "k' = k" "tr' = tr @ evs" "\<forall>ev\<in>set evs. \<not> is_opener ev"
    by auto
  then show ?thesis using challenges_no_opener [of evs] by auto
next
  case False
  obtain ro k1 tr1 where co: "createOrOpen E k tr = (ro, k1, tr1)"
    by (cases "createOrOpen E k tr")
  from createOrOpen_effect [OF co] obtain evs1 where
    e1: "tr1 = tr @ evs1" "settings k1 = settings k"
        "authenticated k \<longrightarrow> challenges evs1 = [] \<and> authenticated k1"
        "\<not> authenticated k \<longrightarrow> challenges evs1 = [] \<and> \<not> authenticated k1
           \<or> challenges evs1 = [authenticated k1]"
    by blast
  show ?thesis
  proof (cases ro)
    case (Inl e)
    with co False assms have "k' = k1" "tr' = tr1" by (simp_all add: Set_unfold)
    with e1 show ?thesis by blast
  next
    case (Inr kc)
    define it where "it = Set_kcItem k1 kc item"
    define a where "a = AddItem E tr1 it"
    define q where "q = Set_queryItem k1 kc item"
    obtain results err where qr: "QueryItem E (tr1 @ [EvAddItem it a]) q = (results, err)"
      by (cases "QueryItem E (tr1 @ [EvAddItem it a]) q")
    define u where "u = UpdateItem E (tr1 @ [EvAddItem it a, EvQueryItem q results err]) q
                          (it\<lparr>attrAccess := None\<rparr>)"
    have "path k = [] \<and> kc = NewWithPath [] \<and> k1 = k \<and> tr1 = tr
          \<or> path k \<noteq> [] \<and> createOrOpen E k tr = (Inr kc, k1, tr1)"
      using False co Inr by simp
    from Set_after_opener [OF this it_def a_def q_def qr u_def] assms
    obtain evs2 where "k' = k1" "tr' = tr1 @ evs2" "challenges evs2 = []"
      by (auto split: if_splits option.splits)
    with e1 have "tr' = tr @ (evs1 @ evs2)" "challenges (evs1 @ evs2) = challenges evs1"
      by (simp_all add: challenges_append)
    with e1 \<open>k' = k1\<close> show ?thesis by metis
  qed
qed

lemma run_op_effect:
  assumes "run_op E k op tr = (r, k', tr')"
  shows "\<exists>evs. tr' = tr @ evs \<and> settings k' = settings k
           \<and> (authenticated k \<longrightarrow> challenges evs = [] \<and> authenticated k')
           \<and> (\<not> authenticated k \<longrightarrow>
                 challenges evs = [] \<and> \<not> authenticated k'
               \<or> challenges evs = [authenticated k'])"
proof (cases op)
  case (OpGet key)
  with assms show ?thesis
    by (auto simp: Get_def Let_def split: prod.splits option.splits if_splits)
next
  case (OpGetMetadata key)
  with assms show ?thesis
    by (auto simp: GetMetadata_def Let_def split: prod.splits option.splits if_splits)
next
  case (OpSet item)
  with assms obtain r0 where "Set E k item tr = (r0, k', tr')"
    by (auto split: prod.splits)
  from Set_effect [OF this] show ?thesis .
next
  case (OpRemove key)
  with assms show ?thesis
    by (auto simp: Remove_def Let_def split: prod.splits option.splits if_splits)
next
  case OpKeys
  with assms show ?thesis
    by (auto simp: Keys_def Let_def split: prod.splits option.splits if_splits)
qed

lemma run_ops_effect:
  assumes "run_ops E k ops tr = (rs, k', tr')"
  shows "\<exists>evs. tr' = tr @ evs \<and> settings k' = settings k
           \<and> (authenticated k \<longrightarrow> challenges evs = [] \<and> authenticated k')
           \<and> (\<not> authenticated k \<longrightarrow>
                 (\<exists>n. challenges evs =
                        replicate n False @ (if authenticated k' then [True] else [])))"
  using assms
proof (induction ops arbitrary: k tr rs)
  case Nil
  then have "k' = k" "tr' = tr" by simp_all
  then show ?case by (intro exI[of _ "[]"]) (simp add: exI[of _ 0])
next
  case (Cons op ops)
  obtain r k1 tr1 where op: "run_op E k op tr = (r, k1, tr1)"
    by (cases "run_op E k op tr")
  obtain rs1 where rest: "run_ops E k1 ops tr1 = (rs1, k', tr')"
    using Cons.prems op by (auto split: prod.splits)
  from run_op_effect [OF op] obtain evs1 where
    e1: "tr1 = tr @ evs1" "settings k1 = settings k"
        "authenticated k \<longrightarrow> challenges evs1 = [] \<and> authenticated k1"
        "\<not> authenticated k \<longrightarrow> challenges evs1 = [] \<and> \<not> authenticated k1
           \<or> challenges evs1 = [authenticated k1]"
    by blast
  from Cons.IH [OF rest] obtain evs2 where
    e2: "tr' = tr1 @ evs2" "settings k' = settings k1"
        "authenticated k1 \<longrightarrow> challenges evs2 = [] \<and> authenticated k'"
        "\<not> authenticated k1 \<longrightarrow>
           (\<exists>n. challenges evs2 = replicate n False @ (if authenticated k' then [True] else []))"
    by blast
  have tr: "tr' = tr @ (evs1 @ evs2)" and st: "settings k' = settings k"
    using e1 e2 by simp_all
  have ch: "challenges (evs1 @ evs2) = challenges evs1 @ challenges evs2"
    by (rule challenges_append)
  have auth: "authenticated k \<longrightarrow> challenges (evs1 @ evs2) = [] \<and> authenticated k'"
    using e1(3) e2(3) ch by simp
  have unauth: "\<exists>n. challenges (evs1 @ evs2) =
                   replicate n False @ (if authenticated k' then [True] else [])"
    if un: "\<not> authenticated k"
  proof (cases "authenticated k1")
    case True
    with un e1(4) have "challenges evs1 = [True]" by auto
    moreover from True e2(3) have "challenges evs2 = []" "authenticated k'" by simp_all
    ultimately have "challenges (evs1 @ evs2) =
                       replicate 0 False @ (if authenticated k' then [True] else [])"
      using ch by simp
    then show ?thesis by blast
  next
    case False
    with e2(4) obtain n where
      n: "challenges evs2 = replicate n False @ (if authenticated k' then [True] else [])"
      by blast
    from un e1(4) False consider "challenges evs1 = []" | "challenges evs1 = [False]"
      by auto
    then show ?thesis
    proof cases
      case 1
      with n ch show ?thesis by auto
    next
      case 2
      with n ch have "challenges (evs1 @ evs2) =
                        replicate (Suc n) False @ (if authenticated k' then [True] else [])"
        by simp
      then show ?thesis by blast
    qed
  qed
  from tr st auth unauth show ?case by blast
qed
text \<open>
  Claim C1, as the code has it. Across any sequence of operations on one instance, the
  challenges put to the authenticator by an instance that starts unauthenticated are some
  number of rejected challenges followed by at most one accepted challenge; the instance
  ends authenticated exactly when the accepted challenge is there. An instance that is
  authenticated is never challenged and stays authenticated, and every entry into the
  gate returns the handle of the keychain at once, with no call to any collaborator.
  So the authenticator is challenged successfully at most once and never after a success,
  while a rejected challenge leaves the instance unauthenticated and the next entry into
  the gate challenges again.
\<close>

theorem challenges_until_first_success:
  assumes "run_ops E k ops tr = (rs, k', tr')"
  shows "\<exists>evs. tr' = tr @ evs
           \<and> (authenticated k \<longrightarrow> challenges evs = [] \<and> authenticated k')
           \<and> (\<not> authenticated k \<longrightarrow>
                 (\<exists>n. challenges evs =
                        replicate n False @ (if authenticated k' then [True] else [])))
           \<and> (authenticated k' \<longrightarrow>
                 (\<forall>E' tr2. openWithBiometrics E' k' tr2
                             = (Inr (NewWithPath (path k')), k', tr2)))"
proof -
  from run_ops_effect [OF assms] obtain evs where
    "tr' = tr @ evs"
    "authenticated k \<longrightarrow> challenges evs = [] \<and> authenticated k'"
    "\<not> authenticated k \<longrightarrow>
       (\<exists>n. challenges evs = replicate n False @ (if authenticated k' then [True] else []))"
    by blast
  moreover have "authenticated k' \<longrightarrow>
                 (\<forall>E' tr2. openWithBiometrics E' k' tr2
                             = (Inr (NewWithPath (path k')), k', tr2))"
    by (simp add: openWithBiometrics_authenticated)
  ultimately show ?thesis by blast
qed

lemma run_accepted:
  "challenges (snd (snd (run_ops (stub_env None ([entry_db], None) None None (True, None))
                           kc_login [OpSet item_db, OpGet ''db'', OpSet item_db] []))) = [True]"
  "authenticated (fst (snd (run_ops (stub_env None ([entry_db], None) None None (True, None))
                           kc_login [OpSet item_db, OpGet ''db'', OpSet item_db] [])))"
  by (simp_all add: Set_unfold Get_def createOrOpen_def openWithBiometrics_def Let_def
        stub_env_def kc_login_def entry_db_def)

theorem challenges_until_first_success_witness:
  "challenges (snd (snd (run_ops (stub_env None ([entry_db], None) None None (True, None))
                           kc_login [OpSet item_db, OpGet ''db'', OpSet item_db] []))) = [True]
   \<and> authenticated (fst (snd (run_ops (stub_env None ([entry_db], None) None None (True, None))
                           kc_login [OpSet item_db, OpGet ''db'', OpSet item_db] [])))
   \<and> openWithBiometrics (stub_env None ([], None) None None (False, None))
        (fst (snd (run_ops (stub_env None ([entry_db], None) None None (True, None))
                           kc_login [OpSet item_db, OpGet ''db'', OpSet item_db] []))) []
     = (Inr (NewWithPath ''login.keychain''),
        fst (snd (run_ops (stub_env None ([entry_db], None) None None (True, None))
                           kc_login [OpSet item_db, OpGet ''db'', OpSet item_db] [])), [])
   \<and> challenges (snd (snd (run_ops (stub_env None ([], None) None None (False, None))
                           (kc_login\<lparr>authenticated := True\<rparr>) [OpSet item_db, OpKeys] [])))
     = []"
proof -
  let ?R = "run_ops (stub_env None ([entry_db], None) None None (True, None))
              kc_login [OpSet item_db, OpGet ''db'', OpSet item_db] []"
  have R: "?R = (fst ?R, fst (snd ?R), snd (snd ?R))" by simp
  have p: "path (fst (snd ?R)) = ''login.keychain''"
    using run_ops_effect [OF R] settings_fields(1) [of "fst (snd ?R)" kc_login]
    by (auto simp: kc_login_def)
  from challenges_until_first_success [OF R] run_accepted
  have "openWithBiometrics (stub_env None ([], None) None None (False, None)) (fst (snd ?R)) []
          = (Inr (NewWithPath (path (fst (snd ?R)))), fst (snd ?R), [])"
    by blast
  moreover
  let ?A = "run_ops (stub_env None ([], None) None None (False, None))
              (kc_login\<lparr>authenticated := True\<rparr>) [OpSet item_db, OpKeys] []"
  have A: "?A = (fst ?A, fst (snd ?A), snd (snd ?A))" by simp
  from challenges_until_first_success [OF A]
  have "challenges (snd (snd ?A)) = []" by (auto simp: kc_login_def)
  ultimately show ?thesis using run_accepted p by simp
qed

text \<open>
  Claim C1 as stated fails: on an existing keychain, with an authenticator that declines,
  two calls of \<open>Set\<close> on a fresh instance challenge the authenticator twice.
\<close>

theorem challenged_twice_counterexample:
  "\<not> length (challenges (snd (snd (run_ops (stub_env None ([], None) None None (False, None))
                 kc_login [OpSet item_db, OpSet item_db] [])))) \<le> 1"
  by (simp add: Set_unfold createOrOpen_def openWithBiometrics_def Let_def
        stub_env_def kc_login_def)

lemma init_opener_fields:
  "\<exists>k0. init_opener cfg = Inr k0
        \<and> path k0 = (if KeychainName cfg \<noteq> [] then KeychainName cfg @ ''.keychain'' else [])
        \<and> service k0 = ServiceName cfg \<and> passphrase k0 = [] \<and> \<not> authenticated k0
        \<and> passwordFunc k0 = KeychainPasswordFunc cfg \<and> \<not> isSynchronizable k0
        \<and> isAccessibleWhenUnlocked k0 = KeychainAccessibleWhenUnlocked cfg
        \<and> isTrusted k0 = KeychainTrustApplication cfg"
  by (simp add: init_opener_def Let_def)

subsection \<open>Set\<close>

text \<open>
  Claim C2. Once the store opener has let \<open>Set\<close> proceed (or at once, when no keychain
  is configured), the first call is the create attempt \<open>AddItem\<close> of the entry for
  (service, key) with the item's data, label and description and an access record. If the
  provider does not report a duplicate, that is the only call and \<open>Set\<close> returns nil.
  If and only if it reports the duplicate, \<open>Set\<close> queries for the entry of (service,
  key): a failed query is returned as "Failed to query keychain", a successful query
  with no result fails with "no results", and otherwise \<open>Set\<close> calls \<open>UpdateItem\<close>
  with the same item but without its access record, so that no update made by \<open>Set\<close>
  carries an access record.
\<close>

theorem Set_upsert:
  assumes "path k = [] \<and> kc = NewWithPath [] \<and> k1 = k \<and> tr1 = tr
         \<or> path k \<noteq> [] \<and> createOrOpen E k tr = (Inr kc, k1, tr1)"
  shows "\<exists>it a. AddItem E tr1 it = a
      \<and> attrService it = Some (service k) \<and> attrAccount it = Some (Key item)
      \<and> attrData it = Some (Data item) \<and> attrLabel it = Some (Label item)
      \<and> attrDescription it = Some (Description item) \<and> attrAccess it \<noteq> None
      \<and> (a \<noteq> Some ErrorDuplicateItem \<longrightarrow>
            Set E k item tr = (None, k1, tr1 @ [EvAddItem it a]))
      \<and> (a = Some ErrorDuplicateItem \<longrightarrow>
           (\<exists>q results err.
               QueryItem E (tr1 @ [EvAddItem it a]) q = (results, err)
             \<and> attrService q = Some (service k) \<and> attrAccount q = Some (Key item)
             \<and> (\<forall>e. err = Some e \<longrightarrow>
                   Set E k item tr =
                     (Some (FmtErrorf ''Failed to query keychain: '' e), k1,
                      tr1 @ [EvAddItem it a, EvQueryItem q results err]))
             \<and> (err = None \<and> results = [] \<longrightarrow>
                   Set E k item tr =
                     (Some (ErrorsNew ''no results''), k1,
                      tr1 @ [EvAddItem it a, EvQueryItem q results err]))
             \<and> (err = None \<and> results \<noteq> [] \<longrightarrow>
                   (\<exists>u. UpdateItem E (tr1 @ [EvAddItem it a, EvQueryItem q results err]) q
                            (it\<lparr>attrAccess := None\<rparr>) = u
                      \<and> Set E k item tr =
                          (map_option (FmtErrorf ''Failed to update item in keychain: '') u, k1,
                           tr1 @ [EvAddItem it a, EvQueryItem q results err,
                                  EvUpdateItem q (it\<lparr>attrAccess := None\<rparr>) u])))))"
proof -
  define it where "it = Set_kcItem k1 kc item"
  define a where "a = AddItem E tr1 it"
  define q where "q = Set_queryItem k1 kc item"
  obtain results err where qr: "QueryItem E (tr1 @ [EvAddItem it a]) q = (results, err)"
    by (cases "QueryItem E (tr1 @ [EvAddItem it a]) q")
  define u where "u = UpdateItem E (tr1 @ [EvAddItem it a, EvQueryItem q results err]) q
                        (it\<lparr>attrAccess := None\<rparr>)"
  have "settings k1 = settings k"
    using assms createOrOpen_effect [of E k tr "Inr kc" k1 tr1] by auto
  then have svc: "service k1 = service k" by (rule settings_fields)
  note S = Set_after_opener [OF assms it_def a_def q_def qr u_def]
  have attrs: "attrService it = Some (service k)" "attrAccount it = Some (Key item)"
    "attrData it = Some (Data item)" "attrLabel it = Some (Label item)"
    "attrDescription it = Some (Description item)" "attrAccess it \<noteq> None"
    "attrService q = Some (service k)" "attrAccount q = Some (Key item)"
    by (simp_all add: it_def q_def Set_kcItem_attrs Set_queryItem_attrs svc)
  have nodup: "a \<noteq> Some ErrorDuplicateItem \<longrightarrow>
            Set E k item tr = (None, k1, tr1 @ [EvAddItem it a])"
    using S by simp
  have dup: "a = Some ErrorDuplicateItem \<longrightarrow>
           (\<exists>q results err.
               QueryItem E (tr1 @ [EvAddItem it a]) q = (results, err)
             \<and> attrService q = Some (service k) \<and> attrAccount q = Some (Key item)
             \<and> (\<forall>e. err = Some e \<longrightarrow>
                   Set E k item tr =
                     (Some (FmtErrorf ''Failed to query keychain: '' e), k1,
                      tr1 @ [EvAddItem it a, EvQueryItem q results err]))
             \<and> (err = None \<and> results = [] \<longrightarrow>
                   Set E k item tr =
                     (Some (ErrorsNew ''no results''), k1,
                      tr1 @ [EvAddItem it a, EvQueryItem q results err]))
             \<and> (err = None \<and> results \<noteq> [] \<longrightarrow>
                   (\<exists>u. UpdateItem E (tr1 @ [EvAddItem it a, EvQueryItem q results err]) q
                            (it\<lparr>attrAccess := None\<rparr>) = u
                      \<and> Set E k item tr =
                          (map_option (FmtErrorf ''Failed to update item in keychain: '') u, k1,
                           tr1 @ [EvAddItem it a, EvQueryItem q results err,
                                  EvUpdateItem q (it\<lparr>attrAccess := None\<rparr>) u]))))"
  proof
    assume d: "a = Some ErrorDuplicateItem"
    have "\<forall>e. err = Some e \<longrightarrow>
                   Set E k item tr =
                     (Some (FmtErrorf ''Failed to query keychain: '' e), k1,
                      tr1 @ [EvAddItem it a, EvQueryItem q results err])"
      using S d by simp
    moreover have "err = None \<and> results = [] \<longrightarrow>
                   Set E k item tr =
                     (Some (ErrorsNew ''no results''), k1,
                      tr1 @ [EvAddItem it a, EvQueryItem q results err])"
      using S d by simp
    moreover have "err = None \<and> results \<noteq> [] \<longrightarrow>
                   (\<exists>u. UpdateItem E (tr1 @ [EvAddItem it a, EvQueryItem q results err]) q
                            (it\<lparr>attrAccess := None\<rparr>) = u
                      \<and> Set E k item tr =
                          (map_option (FmtErrorf ''Failed to update item in keychain: '') u, k1,
                           tr1 @ [EvAddItem it a, EvQueryItem q results err,
                                  EvUpdateItem q (it\<lparr>attrAccess := None\<rparr>) u]))"
      using S d u_def by simp
    ultimately show "\<exists>q results err.
               QueryItem E (tr1 @ [EvAddItem it a]) q = (results, err)
             \<and> attrService q = Some (service k) \<and> attrAccount q = Some (Key item)
             \<and> (\<forall>e. err = Some e \<longrightarrow>
                   Set E k item tr =
                     (Some (FmtErrorf ''Failed to query keychain: '' e), k1,
                      tr1 @ [EvAddItem it a, EvQueryItem q results err]))
             \<and> (err = None \<and> results = [] \<longrightarrow>
                   Set E k item tr =
                     (Some (ErrorsNew ''no results''), k1,
                      tr1 @ [EvAddItem it a, EvQueryItem q results err]))
             \<and> (err = None \<and> results \<noteq> [] \<longrightarrow>
                   (\<exists>u. UpdateItem E (tr1 @ [EvAddItem it a, EvQueryItem q results err]) q
                            (it\<lparr>attrAccess := None\<rparr>) = u
                      \<and> Set E k item tr =
                          (map_option (FmtErrorf ''Failed to update item in keychain: '') u, k1,
                           tr1 @ [EvAddItem it a, EvQueryItem q results err,
                                  EvUpdateItem q (it\<lparr>attrAccess := None\<rparr>) u])))"
      using qr attrs(7,8) by blast
  qed
  show ?thesis
    using a_def attrs(1-6) nodup dup
    by (intro exI[of _ it] exI[of _ a]) simp
qed

theorem Set_upsert_witness:
  "path kc_default = []
   \<and> Set (stub_env None ([entry_db], None) (Some ErrorDuplicateItem) None (True, None))
        kc_default item_db []
     = (None, kc_default,
        [EvAddItem (Set_kcItem kc_default (NewWithPath []) item_db) (Some ErrorDuplicateItem),
         EvQueryItem (Set_queryItem kc_default (NewWithPath []) item_db) [entry_db] None,
         EvUpdateItem (Set_queryItem kc_default (NewWithPath []) item_db)
           ((Set_kcItem kc_default (NewWithPath []) item_db)\<lparr>attrAccess := None\<rparr>) None])
   \<and> attrAccess (Set_kcItem kc_default (NewWithPath []) item_db)
     = Some \<lparr>accLabel = ''database'', TrustedApplications = Some []\<rparr>
   \<and> Set (stub_env None ([], None) (Some ErrorDuplicateItem) None (True, None))
        kc_default item_db []
     = (Some (ErrorsNew ''no results''), kc_default,
        [EvAddItem (Set_kcItem kc_default (NewWithPath []) item_db) (Some ErrorDuplicateItem),
         EvQueryItem (Set_queryItem kc_default (NewWithPath []) item_db) [] None])
   \<and> path kc_login \<noteq> []
   \<and> createOrOpen (stub_env (Some ErrorNoSuchKeychain) ([entry_db], None) None None (True, None))
        kc_login []
     = (Inr (NewWithPath ''login.keychain''), kc_login,
        [EvStatus (NewWithPath ''login.keychain'') (Some ErrorNoSuchKeychain),
         EvNewKeychainWithPrompt ''login.keychain'' (NewWithPath ''login.keychain'') None])
   \<and> Set (stub_env (Some ErrorNoSuchKeychain) ([entry_db], None) None None (True, None))
        kc_login item_db []
     = (None, kc_login,
        [EvStatus (NewWithPath ''login.keychain'') (Some ErrorNoSuchKeychain),
         EvNewKeychainWithPrompt ''login.keychain'' (NewWithPath ''login.keychain'') None,
         EvAddItem (Set_kcItem kc_login (NewWithPath ''login.keychain'') item_db) None])"
proof -
  let ?E1 = "stub_env None ([entry_db], None) (Some ErrorDuplicateItem) None (True, None)"
  let ?E2 = "stub_env None ([], None) (Some ErrorDuplicateItem) None (True, None)"
  let ?E3 = "stub_env (Some ErrorNoSuchKeychain) ([entry_db], None) None None (True, None)"
  let ?tr1 = "[EvStatus (NewWithPath ''login.keychain'') (Some ErrorNoSuchKeychain),
         EvNewKeychainWithPrompt ''login.keychain'' (NewWithPath ''login.keychain'') None]"
  have p: "path kc_default = []" "path kc_login \<noteq> []"
    by (simp_all add: kc_default_def kc_login_def)
  have co: "createOrOpen ?E3 kc_login [] = (Inr (NewWithPath ''login.keychain''), kc_login, ?tr1)"
    by (simp add: createOrOpen_def Let_def stub_env_def kc_login_def)
  have h1: "path kc_default = [] \<and> NewWithPath [] = NewWithPath [] \<and> kc_default = kc_default
              \<and> [] = ([]::trace)
            \<or> path kc_default \<noteq> []
              \<and> createOrOpen ?E1 kc_default [] = (Inr (NewWithPath []), kc_default, [])"
    and h2: "path kc_default = [] \<and> NewWithPath [] = NewWithPath [] \<and> kc_default = kc_default
              \<and> [] = ([]::trace)
            \<or> path kc_default \<noteq> []
              \<and> createOrOpen ?E2 kc_default [] = (Inr (NewWithPath []), kc_default, [])"
    and h3: "path kc_login = [] \<and> NewWithPath ''login.keychain'' = NewWithPath []
              \<and> kc_login = kc_login \<and> ?tr1 = []
            \<or> path kc_login \<noteq> []
              \<and> createOrOpen ?E3 kc_login [] = (Inr (NewWithPath ''login.keychain''), kc_login, ?tr1)"
    using p co by simp_all
  have acc: "attrAccess (Set_kcItem kc_default (NewWithPath []) item_db)
     = Some \<lparr>accLabel = ''database'', TrustedApplications = Some []\<rparr>"
    by (simp add: Set_kcItem_attrs kc_default_def item_db_def)
  have e: "AddItem ?E1 tr it = Some ErrorDuplicateItem" "AddItem ?E2 tr it = Some ErrorDuplicateItem"
          "AddItem ?E3 tr it = None" "QueryItem ?E1 tr it = ([entry_db], None)"
          "QueryItem ?E2 tr it = ([], None)" "UpdateItem ?E1 tr it it' = None" for tr it it'
    by (simp_all add: stub_env_def)
  from Set_upsert [OF h1, of item_db] Set_upsert [OF h2, of item_db]
       Set_upsert [OF h3, of item_db]
  have "Set ?E1 kc_default item_db []
     = (None, kc_default,
        [EvAddItem (Set_kcItem kc_default (NewWithPath []) item_db) (Some ErrorDuplicateItem),
         EvQueryItem (Set_queryItem kc_default (NewWithPath []) item_db) [entry_db] None,
         EvUpdateItem (Set_queryItem kc_default (NewWithPath []) item_db)
           ((Set_kcItem kc_default (NewWithPath []) item_db)\<lparr>attrAccess := None\<rparr>) None])"
   and "Set ?E2 kc_default item_db []
     = (Some (ErrorsNew ''no results''), kc_default,
        [EvAddItem (Set_kcItem kc_default (NewWithPath []) item_db) (Some ErrorDuplicateItem),
         EvQueryItem (Set_queryItem kc_default (NewWithPath []) item_db) [] None])"
   and "Set ?E3 kc_login item_db []
     = (None, kc_login, ?tr1 @
         [EvAddItem (Set_kcItem kc_login (NewWithPath ''login.keychain'') item_db) None])"
    using p co by (simp_all add: Set_unfold Let_def e SetAccess_def)
  with p co acc show ?thesis by simp
qed

text \<open>
  Claim C4. For an instance made from a configuration, in whatever state earlier
  operations have left it, the item that \<open>Set\<close> creates carries an access record with the
  item's label; the record has no list of trusted applications (nil) when the
  configuration trusts the calling application and the item does not override that, and
  the empty list otherwise.
\<close>

theorem Set_access_record:
  assumes "init_opener cfg = Inr k0"
      and "run_ops E0 k0 ops tr0 = (rs, k, tr)"
      and "path k = [] \<and> kc = NewWithPath [] \<and> k1 = k \<and> tr1 = tr
         \<or> path k \<noteq> [] \<and> createOrOpen E k tr = (Inr kc, k1, tr1)"
  shows "\<exists>it a rest. snd (snd (Set E k item tr)) = tr1 @ EvAddItem it a # rest
           \<and> a = AddItem E tr1 it
           \<and> attrAccount it = Some (Key item)
           \<and> attrAccess it =
               Some \<lparr>accLabel = Label item,
                     TrustedApplications =
                       (if KeychainTrustApplication cfg \<and> \<not> KeychainNotTrustApplication item
                        then None else Some [])\<rparr>"
proof -
  define it where "it = Set_kcItem k1 kc item"
  define a where "a = AddItem E tr1 it"
  define q where "q = Set_queryItem k1 kc item"
  obtain results err where qr: "QueryItem E (tr1 @ [EvAddItem it a]) q = (results, err)"
    by (cases "QueryItem E (tr1 @ [EvAddItem it a]) q")
  define u where "u = UpdateItem E (tr1 @ [EvAddItem it a, EvQueryItem q results err]) q
                        (it\<lparr>attrAccess := None\<rparr>)"
  have "isTrusted k0 = KeychainTrustApplication cfg"
    using assms(1) init_opener_fields [of cfg] by auto
  moreover have "settings k = settings k0"
    using run_ops_effect [OF assms(2)] by blast
  moreover have "settings k1 = settings k"
    using assms(3) createOrOpen_effect [of E k tr "Inr kc" k1 tr1] by auto
  ultimately have "isTrusted k1 = KeychainTrustApplication cfg"
    using settings_fields(6) by metis
  then have acc: "attrAccess it =
               Some \<lparr>accLabel = Label item,
                     TrustedApplications =
                       (if KeychainTrustApplication cfg \<and> \<not> KeychainNotTrustApplication item
                        then None else Some [])\<rparr>"
    and key: "attrAccount it = Some (Key item)"
    by (simp_all add: it_def Set_kcItem_attrs)
  from Set_after_opener [OF assms(3) it_def a_def q_def qr u_def]
  have "\<exists>rest. snd (snd (Set E k item tr)) = tr1 @ EvAddItem it a # rest"
    by (auto split: option.split)
  with acc key a_def show ?thesis by blast
qed

theorem Set_access_record_witness:
  "init_opener cfg_login = Inr kc_login
   \<and> run_ops (stub_env (Some ErrorNoSuchKeychain) ([entry_db], None) None None (True, None))
        kc_login [] [] = ([], kc_login, [])
   \<and> KeychainTrustApplication cfg_login \<and> \<not> KeychainNotTrustApplication item_db
   \<and> snd (snd (Set (stub_env (Some ErrorNoSuchKeychain) ([entry_db], None) None None (True, None))
                 kc_login item_db []))
     = [EvStatus (NewWithPath ''login.keychain'') (Some ErrorNoSuchKeychain),
        EvNewKeychainWithPrompt ''login.keychain'' (NewWithPath ''login.keychain'') None,
        EvAddItem (Set_kcItem kc_login (NewWithPath ''login.keychain'') item_db) None]
   \<and> attrAccess (Set_kcItem kc_login (NewWithPath ''login.keychain'') item_db)
     = Some \<lparr>accLabel = ''database'', TrustedApplications = None\<rparr>
   \<and> attrAccess (Set_kcItem kc_login (NewWithPath ''login.keychain'')
                   (item_db\<lparr>KeychainNotTrustApplication := True\<rparr>))
     = Some \<lparr>accLabel = ''database'', TrustedApplications = Some []\<rparr>"
proof -
  let ?E = "stub_env (Some ErrorNoSuchKeychain) ([entry_db], None) None None (True, None)"
  let ?tr1 = "[EvStatus (NewWithPath ''login.keychain'') (Some ErrorNoSuchKeychain),
         EvNewKeychainWithPrompt ''login.keychain'' (NewWithPath ''login.keychain'') None]"
  have co: "createOrOpen ?E kc_login [] = (Inr (NewWithPath ''login.keychain''), kc_login, ?tr1)"
    by (simp add: createOrOpen_def Let_def stub_env_def kc_login_def)
  have p: "path kc_login \<noteq> []" by (simp add: kc_login_def)
  have h: "path kc_login = [] \<and> NewWithPath ''login.keychain'' = NewWithPath []
              \<and> kc_login = kc_login \<and> ?tr1 = []
            \<or> path kc_login \<noteq> []
              \<and> createOrOpen ?E kc_login [] = (Inr (NewWithPath ''login.keychain''), kc_login, ?tr1)"
    using p co by simp
  have r: "run_ops ?E kc_login [] [] = ([], kc_login, [])" by simp
  have e: "AddItem ?E tr it = None" for tr it by (simp add: stub_env_def)
  have t: "KeychainTrustApplication cfg_login" "\<not> KeychainNotTrustApplication item_db"
    by (simp_all add: cfg_login_def item_db_def)
  have l: "Label item_db = ''database''" by (simp add: item_db_def)
  from Set_access_record [OF init_opener_cfg_login r h, of item_db]
       Set_access_record [OF init_opener_cfg_login r h,
                          of "item_db\<lparr>KeychainNotTrustApplication := True\<rparr>"]
  have "snd (snd (Set ?E kc_login item_db []))
          = ?tr1 @ [EvAddItem (Set_kcItem kc_login (NewWithPath ''login.keychain'') item_db) None]"
    and "attrAccess (Set_kcItem kc_login (NewWithPath ''login.keychain'') item_db)
          = Some \<lparr>accLabel = ''database'', TrustedApplications = None\<rparr>"
    and "attrAccess (Set_kcItem kc_login (NewWithPath ''login.keychain'')
                   (item_db\<lparr>KeychainNotTrustApplication := True\<rparr>))
          = Some \<lparr>accLabel = ''database'', TrustedApplications = Some []\<rparr>"
    using p co
    by (simp_all add: Set_unfold Let_def e Set_kcItem_attrs kc_login_def item_db_def)
  with init_opener_cfg_login r t show ?thesis by simp
qed

text \<open>
  Claim C3 fails on the code. The constructor never copies the configuration's
  \<open>KeychainSynchronizable\<close> into \<open>isSynchronizable\<close>, which keeps its zero value, so the
  test of \<open>Set\<close> on line 151 is false for every configuration and no item that \<open>Set\<close>
  builds carries the synchronizable attribute. With \<open>KeychainSynchronizable\<close> set and an
  item that does not override it, \<open>Set\<close> adds an entry without the attribute.
\<close>

theorem Set_never_synchronizable:
  "(\<exists>k0. init_opener cfg = Inr k0 \<and> \<not> isSynchronizable k0
        \<and> (\<forall>kc item. attrSynchronizable (Set_kcItem k0 kc item) = None))
   \<and> KeychainSynchronizable cfg_default \<and> \<not> KeychainNotSynchronizable item_db
   \<and> init_opener cfg_default = Inr kc_default
   \<and> Set (stub_env None ([], None) None None (True, None)) kc_default item_db []
     = (None, kc_default,
        [EvAddItem
          \<lparr>attrSecClass = Some SecClassGenericPassword, attrService = Some ''svc'',
           attrAccount = Some ''db'', attrLabel = Some ''database'',
           attrDescription = Some ''password'', attrData = Some ''pw'',
           attrMatchLimit = None, attrReturnAttributes = None, attrReturnData = None,
           attrReturnRef = None, attrMatchSearchList = None, attrUseKeychain = None,
           attrSynchronizable = None, attrAccessible = None,
           attrAccess = Some \<lparr>accLabel = ''database'', TrustedApplications = Some []\<rparr>\<rparr>
          None])"
proof -
  have "\<exists>k0. init_opener cfg = Inr k0 \<and> \<not> isSynchronizable k0
        \<and> (\<forall>kc item. attrSynchronizable (Set_kcItem k0 kc item) = None)"
    by (simp add: init_opener_def Let_def Set_kcItem_attrs)
  moreover have "KeychainSynchronizable cfg_default" "\<not> KeychainNotSynchronizable item_db"
    by (simp_all add: cfg_default_def item_db_def)
  moreover have "Set (stub_env None ([], None) None None (True, None)) kc_default item_db []
     = (None, kc_default,
        [EvAddItem
          \<lparr>attrSecClass = Some SecClassGenericPassword, attrService = Some ''svc'',
           attrAccount = Some ''db'', attrLabel = Some ''database'',
           attrDescription = Some ''password'', attrData = Some ''pw'',
           attrMatchLimit = None, attrReturnAttributes = None, attrReturnData = None,
           attrReturnRef = None, attrMatchSearchList = None, attrUseKeychain = None,
           attrSynchronizable = None, attrAccessible = None,
           attrAccess = Some \<lparr>accLabel = ''database'', TrustedApplications = Some []\<rparr>\<rparr>
          None])"
    by (simp add: Set_unfold Let_def Set_kcItem_def setters stub_env_def kc_default_def
          item_db_def)
  ultimately show ?thesis using init_opener_cfg_default by simp
qed

subsection \<open>The store opener\<close>

text \<open>
  Claim C5. \<open>createOrOpen\<close> asks for the status of the keychain and then takes exactly
  one of three ways. If the keychain exists, it is the gate's result on the extended
  trace and no keychain is created. If the status is the no-such-keychain error, no
  unlock is attempted, and the keychain is created: by \<open>NewKeychainWithPrompt\<close> when no
  password function is configured; otherwise the password function is asked and, when it
  returns a passphrase, \<open>NewKeychain\<close> is called with that passphrase (when it returns
  an error, that error is returned and the call ends there). Any other status error is
  returned unchanged with nothing else done. So the calls that one \<open>createOrOpen\<close> adds
  never contain both a creation and an unlock.
\<close>

theorem createOrOpen_branches:
  assumes "st = Status E tr (NewWithPath (path k))"
      and "tr1 = tr @ [EvStatus (NewWithPath (path k)) st]"
      and "new = drop (length tr) (snd (snd (createOrOpen E k tr)))"
  shows "(st = None \<longrightarrow>
            createOrOpen E k tr = openWithBiometrics E k tr1
          \<and> (\<forall>ev\<in>set new. \<not> is_create ev))
       \<and> (st = Some ErrorNoSuchKeychain \<longrightarrow>
            (\<forall>ev\<in>set new. \<not> is_unlock ev)
          \<and> (passwordFunc k = None \<longrightarrow>
               (\<exists>kc cerr. NewKeychainWithPrompt E tr1 (path k) = (kc, cerr)
                  \<and> createOrOpen E k tr =
                      (case cerr of None \<Rightarrow> Inr kc | Some e \<Rightarrow> Inl (Ext e), k,
                       tr1 @ [EvNewKeychainWithPrompt (path k) kc cerr])))
          \<and> (\<forall>f pw. passwordFunc k = Some f
                   \<and> f tr1 ''Enter passphrase for keychain'' = (pw, None) \<longrightarrow>
               (\<exists>kc cerr.
                   NewKeychain E (tr1 @ [EvPasswordFunc ''Enter passphrase for keychain'' pw None])
                     (path k) pw = (kc, cerr)
                 \<and> createOrOpen E k tr =
                      (case cerr of None \<Rightarrow> Inr kc | Some e \<Rightarrow> Inl (Ext e), k,
                       tr1 @ [EvPasswordFunc ''Enter passphrase for keychain'' pw None,
                              EvNewKeychain (path k) pw kc cerr])))
          \<and> (\<forall>f pw e. passwordFunc k = Some f
                   \<and> f tr1 ''Enter passphrase for keychain'' = (pw, Some e) \<longrightarrow>
               createOrOpen E k tr =
                 (Inl (Ext e), k,
                  tr1 @ [EvPasswordFunc ''Enter passphrase for keychain'' pw (Some e)])))
       \<and> (\<forall>e. st = Some e \<and> e \<noteq> ErrorNoSuchKeychain \<longrightarrow>
            createOrOpen E k tr = (Inl (Ext e), k, tr1))
       \<and> ((\<forall>ev\<in>set new. \<not> is_create ev) \<or> (\<forall>ev\<in>set new. \<not> is_unlock ev))"
proof -
  obtain r k' tr' where co: "createOrOpen E k tr = (r, k', tr')"
    by (cases "createOrOpen E k tr")
  from createOrOpen_effect [OF co] obtain evs where
    evs: "tr' = tr @ evs"
         "(\<forall>ev\<in>set evs. \<not> is_create ev) \<or> (\<forall>ev\<in>set evs. \<not> is_unlock ev)"
    by blast
  have new: "new = evs" using assms(3) co evs(1) by simp
  have exists: "createOrOpen E k tr = openWithBiometrics E k tr1
                  \<and> (\<forall>ev\<in>set new. \<not> is_create ev)" if "st = None"
  proof -
    from that assms(1,2) have eq: "createOrOpen E k tr = openWithBiometrics E k tr1"
      by (simp add: createOrOpen_exists)
    with co have "openWithBiometrics E k tr1 = (r, k', tr')" by simp
    from openWithBiometrics_effect [OF this] obtain evs' where
      "tr' = tr1 @ evs'" "\<forall>ev\<in>set evs'. \<not> is_create ev" by blast
    with evs(1) assms(2) have "evs = EvStatus (NewWithPath (path k)) st # evs'" by simp
    with \<open>\<forall>ev\<in>set evs'. \<not> is_create ev\<close> new eq show ?thesis by simp
  qed
  have absent_unlock: "\<forall>ev\<in>set new. \<not> is_unlock ev" if "st = Some ErrorNoSuchKeychain"
    using createOrOpen_absent_aux [of E tr k ErrorNoSuchKeychain] that assms(1) co evs(1) new
    by auto
  have prompt: "\<exists>kc cerr. NewKeychainWithPrompt E tr1 (path k) = (kc, cerr)
                  \<and> createOrOpen E k tr =
                      (case cerr of None \<Rightarrow> Inr kc | Some e \<Rightarrow> Inl (Ext e), k,
                       tr1 @ [EvNewKeychainWithPrompt (path k) kc cerr])"
    if "st = Some ErrorNoSuchKeychain" "passwordFunc k = None"
  proof -
    obtain kc cerr where n: "NewKeychainWithPrompt E tr1 (path k) = (kc, cerr)"
      by (cases "NewKeychainWithPrompt E tr1 (path k)")
    then have "createOrOpen E k tr =
                      (case cerr of None \<Rightarrow> Inr kc | Some e \<Rightarrow> Inl (Ext e), k,
                       tr1 @ [EvNewKeychainWithPrompt (path k) kc cerr])"
      using that assms(1,2) unfolding createOrOpen_def Let_def
      by (simp split: option.split)
    with n show ?thesis by blast
  qed
  have supplied: "\<exists>kc cerr.
                   NewKeychain E (tr1 @ [EvPasswordFunc ''Enter passphrase for keychain'' pw None])
                     (path k) pw = (kc, cerr)
                 \<and> createOrOpen E k tr =
                      (case cerr of None \<Rightarrow> Inr kc | Some e \<Rightarrow> Inl (Ext e), k,
                       tr1 @ [EvPasswordFunc ''Enter passphrase for keychain'' pw None,
                              EvNewKeychain (path k) pw kc cerr])"
    if "st = Some ErrorNoSuchKeychain" "passwordFunc k = Some f"
       "f tr1 ''Enter passphrase for keychain'' = (pw, None)" for f pw
  proof -
    let ?tr2 = "tr1 @ [EvPasswordFunc ''Enter passphrase for keychain'' pw None]"
    obtain kc cerr where n: "NewKeychain E ?tr2 (path k) pw = (kc, cerr)"
      by (cases "NewKeychain E ?tr2 (path k) pw")
    then have "createOrOpen E k tr =
                      (case cerr of None \<Rightarrow> Inr kc | Some e \<Rightarrow> Inl (Ext e), k,
                       ?tr2 @ [EvNewKeychain (path k) pw kc cerr])"
      using that assms(1,2) unfolding createOrOpen_def Let_def
      by (simp split: option.split)
    with n show ?thesis by simp
  qed
  have failed: "createOrOpen E k tr =
                 (Inl (Ext e), k,
                  tr1 @ [EvPasswordFunc ''Enter passphrase for keychain'' pw (Some e)])"
    if "st = Some ErrorNoSuchKeychain" "passwordFunc k = Some f"
       "f tr1 ''Enter passphrase for keychain'' = (pw, Some e)" for f pw e
    using that assms(1,2) unfolding createOrOpen_def Let_def by simp
  have other: "createOrOpen E k tr = (Inl (Ext e), k, tr1)"
    if "st = Some e" "e \<noteq> ErrorNoSuchKeychain" for e
    using that assms(1,2) unfolding createOrOpen_def Let_def by simp
  from exists absent_unlock prompt supplied failed other evs(2) new
  show ?thesis by blast
qed

theorem createOrOpen_branches_witness:
  "createOrOpen (stub_env (Some ErrorNoSuchKeychain) ([], None) None None (True, None))
     kc_login []
     = (Inr (NewWithPath ''login.keychain''), kc_login,
        [EvStatus (NewWithPath ''login.keychain'') (Some ErrorNoSuchKeychain),
         EvNewKeychainWithPrompt ''login.keychain'' (NewWithPath ''login.keychain'') None])
   \<and> createOrOpen (stub_env (Some ErrorNoSuchKeychain) ([], None) None None (True, None))
       (kc_login\<lparr>passwordFunc := Some prompt_secret1\<rparr>) []
     = (Inr (NewWithPath ''login.keychain''), kc_login\<lparr>passwordFunc := Some prompt_secret1\<rparr>,
        [EvStatus (NewWithPath ''login.keychain'') (Some ErrorNoSuchKeychain),
         EvPasswordFunc ''Enter passphrase for keychain'' ''secret1'' None,
         EvNewKeychain ''login.keychain'' ''secret1'' (NewWithPath ''login.keychain'') None])
   \<and> createOrOpen (stub_env (Some ErrorNoSuchKeychain) ([], None) None None (True, None))
       (kc_login\<lparr>passwordFunc := Some prompt_cancelled\<rparr>) []
     = (Inl (Ext (ErrorOther ''cancelled'')), kc_login\<lparr>passwordFunc := Some prompt_cancelled\<rparr>,
        [EvStatus (NewWithPath ''login.keychain'') (Some ErrorNoSuchKeychain),
         EvPasswordFunc ''Enter passphrase for keychain'' [] (Some (ErrorOther ''cancelled''))])
   \<and> createOrOpen (stub_env (Some (ErrorOther ''io'')) ([], None) None None (True, None))
       kc_login []
     = (Inl (Ext (ErrorOther ''io'')), kc_login,
        [EvStatus (NewWithPath ''login.keychain'') (Some (ErrorOther ''io''))])
   \<and> createOrOpen (stub_env None ([entry_db], None) None None (True, None)) kc_login []
     = (Inr (NewWithPath ''login.keychain''),
        kc_login\<lparr>authenticated := True, passphrase := ''pw''\<rparr>,
        [EvStatus (NewWithPath ''login.keychain'') None,
         EvAuthenticate ''unlock login.keychain'' True None,
         EvQueryItem (SetReturnData True (SetMatchLimit MatchLimitOne
            (SetLabel ''Passphrase for login.keychain'' (SetAccount ''x'' (SetService ''x''
              (SetSecClass SecClassGenericPassword NewItem))))))
           [entry_db] None,
         EvUnlockAtPath ''login.keychain'' ''pw'' None])"
proof -
  let ?Eabs = "stub_env (Some ErrorNoSuchKeychain) ([], None) None None (True, None)"
  let ?Eio = "stub_env (Some (ErrorOther ''io'')) ([], None) None None (True, None)"
  let ?Eex = "stub_env None ([entry_db], None) None None (True, None)"
  note b = createOrOpen_branches [OF refl refl refl]
  from b [of ?Eabs "[]" kc_login]
       b [of ?Eabs "[]" "kc_login\<lparr>passwordFunc := Some prompt_secret1\<rparr>"]
       b [of ?Eabs "[]" "kc_login\<lparr>passwordFunc := Some prompt_cancelled\<rparr>"]
       b [of ?Eio "[]" kc_login] b [of ?Eex "[]" kc_login]
  show ?thesis
    by (simp add: createOrOpen_def openWithBiometrics_def Let_def stub_env_def kc_login_def
          entry_db_def prompt_secret1_def prompt_cancelled_def biometricsLabel_def
          biometricsService_def biometricsAccount_def)
qed

end
